theory Spec2Isabelle
  imports Complex_Main "HOL-Library.AList"
begin

section \<open>Python values and the operations the backend applies to them\<close>

text \<open>
  The backend (\<^verbatim>\<open>api.py\<close>) handles JSON-shaped Python values throughout: the
  responses of the analytics store, the object decoded from the summarization reply, and
  the cache itself. A dict keeps its insertion order, so it is an association list with
  string keys. A \<^typ>\<open>char\<close> stands for one code point of a Python \<^verbatim>\<open>str\<close>
  (the model covers code points below 256). A float is carried by its value: the code
  only passes floats through and tests them for zero.
\<close>

datatype pyval =
    PNone
  | PBool bool
  | PInt int
  | PFloat real
  | PStr string
  | PList "pyval list"
  | PDict "(string \<times> pyval) list"

text \<open>
  Exceptions, by class. All of them derive from \<^verbatim>\<open>Exception\<close>, which is what the
  handlers of the backend catch. \<open>OtherException\<close> names any other such class raised by
  the store client or by the summarization client.
\<close>

datatype py_exception =
    KeyError
  | IndexError
  | TypeError
  | AttributeError
  | ValueError
  | JSONDecodeError
  | OtherException string

type_synonym 'a raising = "py_exception + 'a"

definition bindE :: "'a raising \<Rightarrow> ('a \<Rightarrow> 'b raising) \<Rightarrow> 'b raising" where
  "bindE m f = (case m of Inl e \<Rightarrow> Inl e | Inr x \<Rightarrow> f x)"

fun mapE :: "('a \<Rightarrow> 'b raising) \<Rightarrow> 'a list \<Rightarrow> 'b list raising" where
  "mapE f [] = Inr []"
| "mapE f (x # xs) = bindE (f x) (\<lambda>y. bindE (mapE f xs) (\<lambda>ys. Inr (y # ys)))"

text \<open>Truth value of an object (\<^verbatim>\<open>if x\<close>, \<^verbatim>\<open>not x\<close>).\<close>

fun py_truthy :: "pyval \<Rightarrow> bool" where
  "py_truthy PNone = False"
| "py_truthy (PBool b) = b"
| "py_truthy (PInt i) = (i \<noteq> 0)"
| "py_truthy (PFloat r) = (r \<noteq> 0)"
| "py_truthy (PStr s) = (s \<noteq> [])"
| "py_truthy (PList xs) = (xs \<noteq> [])"
| "py_truthy (PDict d) = (d \<noteq> [])"

text \<open>\<^verbatim>\<open>x == 0\<close>: true of the integer zero, of \<^verbatim>\<open>0.0\<close> and of \<^verbatim>\<open>False\<close>.\<close>

fun py_eq_zero :: "pyval \<Rightarrow> bool" where
  "py_eq_zero (PInt i) = (i = 0)"
| "py_eq_zero (PFloat r) = (r = 0)"
| "py_eq_zero (PBool b) = (\<not> b)"
| "py_eq_zero _ = False"

text \<open>\<^verbatim>\<open>x[k]\<close> with a string key \<open>k\<close>.\<close>

fun py_getitem :: "pyval \<Rightarrow> string \<Rightarrow> pyval raising" where
  "py_getitem (PDict d) k = (case map_of d k of None \<Rightarrow> Inl KeyError | Some v \<Rightarrow> Inr v)"
| "py_getitem _ k = Inl TypeError"

text \<open>\<^verbatim>\<open>x[0]\<close>. No key of a dict decoded from JSON equals the integer 0.\<close>

fun py_getitem0 :: "pyval \<Rightarrow> pyval raising" where
  "py_getitem0 (PList xs) = (case xs of [] \<Rightarrow> Inl IndexError | x # _ \<Rightarrow> Inr x)"
| "py_getitem0 (PStr s) = (case s of [] \<Rightarrow> Inl IndexError | c # _ \<Rightarrow> Inr (PStr [c]))"
| "py_getitem0 (PDict d) = Inl KeyError"
| "py_getitem0 _ = Inl TypeError"

text \<open>\<^verbatim>\<open>x.get(k, default)\<close>: only a dict has the method.\<close>

fun py_get :: "pyval \<Rightarrow> string \<Rightarrow> pyval \<Rightarrow> pyval raising" where
  "py_get (PDict d) k dflt = Inr (case map_of d k of None \<Rightarrow> dflt | Some v \<Rightarrow> v)"
| "py_get _ k dflt = Inl AttributeError"

text \<open>\<^verbatim>\<open>x[k] = v\<close> with a string key \<open>k\<close>: only a dict accepts it.\<close>

fun py_setitem :: "pyval \<Rightarrow> string \<Rightarrow> pyval \<Rightarrow> pyval raising" where
  "py_setitem (PDict d) k v = Inr (PDict (AList.update k v d))"
| "py_setitem _ k v = Inl TypeError"

text \<open>The elements a \<^verbatim>\<open>for\<close> clause runs through.\<close>

fun py_iter :: "pyval \<Rightarrow> pyval list raising" where
  "py_iter (PList xs) = Inr xs"
| "py_iter (PDict d) = Inr (map (\<lambda>kv. PStr (fst kv)) d)"
| "py_iter (PStr s) = Inr (map (\<lambda>c. PStr [c]) s)"
| "py_iter _ = Inl TypeError"

subsection \<open>Strings\<close>

text \<open>\<^verbatim>\<open>sub in s\<close> on strings: \<open>sub\<close> occurs in \<open>s\<close> as a contiguous piece.\<close>

fun str_contains :: "string \<Rightarrow> string \<Rightarrow> bool" where
  "str_contains sub [] = (sub = [])"
| "str_contains sub (c # cs) = (take (length sub) (c # cs) = sub \<or> str_contains sub cs)"

text \<open>\<^verbatim>\<open>k in x\<close> with a string \<open>k\<close>.\<close>

fun py_contains :: "string \<Rightarrow> pyval \<Rightarrow> bool raising" where
  "py_contains k (PDict d) = Inr (k \<in> set (map fst d))"
| "py_contains k (PList xs) = Inr (PStr k \<in> set xs)"
| "py_contains k (PStr s) = Inr (str_contains k s)"
| "py_contains k _ = Inl TypeError"

text \<open>
  \<^verbatim>\<open>str.isspace\<close> on one code point below 256: tab to carriage return, the four
  separators U+001C to U+001F, the space, U+0085 and U+00A0.
\<close>

definition py_isspace :: "char \<Rightarrow> bool" where
  "py_isspace c = ((of_char c :: nat) \<in> {9, 10, 11, 12, 13, 28, 29, 30, 31, 32, 133, 160})"

text \<open>\<^verbatim>\<open>s.strip()\<close>: drops the whitespace at both ends.\<close>

definition py_strip :: "string \<Rightarrow> string" where
  "py_strip s = rev (dropWhile py_isspace (rev (dropWhile py_isspace s)))"

text \<open>
  \<^verbatim>\<open>s.replace(old, new)\<close>: the occurrences of \<open>old\<close> are found from the left and do
  not overlap. With an empty \<open>old\<close>, \<open>new\<close> goes before every character and at the end.
\<close>

function py_replace :: "string \<Rightarrow> string \<Rightarrow> string \<Rightarrow> string" where
  "py_replace old new s =
     (if old = [] then new @ concat (map (\<lambda>c. c # new) s)
      else if s = [] then []
      else if take (length old) s = old
        then new @ py_replace old new (drop (length old) s)
      else hd s # py_replace old new (tl s))"
  by pat_completeness auto
termination
  by (relation "measure (\<lambda>(old, new, s). length s)") auto

declare py_replace.simps [simp del]

section \<open>The process state\<close>

text \<open>
  What the process prints, one constructor for each \<^verbatim>\<open>print\<close> of the source (the
  time and the exception text that some of the messages embed are left to the
  constructor's argument).
\<close>

datatype message =
    AnalysisSkipped
  | RunningAnalysis
  | NoNewEvents
  | SendingData
  | CacheUpdated
  | TaskError py_exception
  | DashboardError py_exception

text \<open>
  The module-level globals: whether \<^verbatim>\<open>es\<close> and \<^verbatim>\<open>model\<close> were set to a client
  at start-up or to \<^verbatim>\<open>None\<close>, the cache, and the standard output.
\<close>

record server =
  es :: bool
  model :: bool
  ai_analysis_cache :: pyval
  stdout :: "message list"

definition placeholder :: pyval where
  "placeholder = PDict
     [(''summary'', PStr ''AI analysis is initializing. Please check back in a few minutes...''),
      (''threat_type'', PStr ''Initializing...''),
      (''recommendations'', PList [PStr ''Waiting for first data batch...'']),
      (''last_updated'', PNone)]"

definition process_start :: "bool \<Rightarrow> bool \<Rightarrow> server" where
  "process_start es_up model_up =
     \<lparr>es = es_up, model = model_up, ai_analysis_cache = placeholder, stdout = []\<rparr>"

definition print :: "message \<Rightarrow> server \<Rightarrow> server" where
  "print m s = s\<lparr>stdout := stdout s @ [m]\<rparr>"

section \<open>The background analysis task\<close>

text \<open>
  What one run of \<^verbatim>\<open>fetch_and_analyze_data\<close> meets outside the process: the outcome
  of \<^verbatim>\<open>es.search\<close>, the outcome of \<^verbatim>\<open>model.generate_content\<close> (an exception, or a
  response whose \<^verbatim>\<open>text\<close> property raises or gives the reply), and the string that
  \<^verbatim>\<open>datetime.now().isoformat()\<close> returns. The decoder \<^verbatim>\<open>json.loads\<close> belongs to
  the standard library; the task takes it as the parameter \<open>json_loads\<close>.
\<close>

record cycle =
  search_result :: "pyval raising"
  generate_result :: "string raising raising"
  now_iso :: string

type_synonym decoder = "string \<Rightarrow> pyval raising"

text \<open>\<^verbatim>\<open>[b['key'] for b in aggs.get(name, {}).get('buckets', [])]\<close>\<close>

definition bucket_keys :: "pyval \<Rightarrow> string \<Rightarrow> pyval raising" where
  "bucket_keys aggs name =
     bindE (py_get aggs name (PDict [])) (\<lambda>agg.
     bindE (py_get agg ''buckets'' (PList [])) (\<lambda>buckets.
     bindE (py_iter buckets) (\<lambda>bs.
     bindE (mapE (\<lambda>b. py_getitem b ''key'') bs) (\<lambda>keys.
     Inr (PList keys)))))"

text \<open>
  Step 1 of the task: the response of the store, its aggregations and the total number
  of matching events.
\<close>

definition query :: "cycle \<Rightarrow> (pyval \<times> pyval) raising" where
  "query c =
     bindE (search_result c) (\<lambda>response.
     bindE (py_get response ''aggregations'' (PDict [])) (\<lambda>aggs.
     bindE (py_getitem response ''hits'') (\<lambda>hits.
     bindE (py_getitem hits ''total'') (\<lambda>total.
     bindE (py_getitem total ''value'') (\<lambda>total_events.
     Inr (aggs, total_events))))))"

text \<open>
  Step 2: the values the briefing text embeds, in the order of its lines. Rendering them
  as text cannot raise, and nothing below depends on the rendered text.
\<close>

definition compose_briefing :: "pyval \<Rightarrow> pyval \<Rightarrow> pyval list raising" where
  "compose_briefing total_events aggs =
     bindE (py_get aggs ''unique_ips'' (PDict [])) (\<lambda>ips.
     bindE (py_get ips ''value'' (PInt 0)) (\<lambda>unique_ips.
     bindE (bucket_keys aggs ''top_countries'') (\<lambda>countries.
     bindE (bucket_keys aggs ''top_honeypots'') (\<lambda>honeypots.
     bindE (bucket_keys aggs ''top_ports'') (\<lambda>ports.
     bindE (bucket_keys aggs ''top_passwords'') (\<lambda>passwords.
     Inr [total_events, unique_ips, countries, honeypots, ports, passwords]))))))"

text \<open>
  \<^verbatim>\<open>response.text.strip().replace("```json", "").replace("```", "")\<close>
\<close>

definition clean_response :: "string \<Rightarrow> string" where
  "clean_response text =
     py_replace ''```'' '''' (py_replace ''```json'' '''' (py_strip text))"

text \<open>
  Steps 4 and 5 up to the assignment to the cache: call the service, clean the reply,
  decode it, set \<^verbatim>\<open>last_updated\<close>.
\<close>

definition summarize :: "decoder \<Rightarrow> cycle \<Rightarrow> pyval raising" where
  "summarize json_loads c =
     bindE (generate_result c) (\<lambda>response.
     bindE response (\<lambda>text.
     bindE (json_loads (clean_response text)) (\<lambda>ai_result.
     py_setitem ai_result ''last_updated'' (PStr (now_iso c)))))"

text \<open>
  The task itself. Every exception raised between \<^verbatim>\<open>try\<close> and \<^verbatim>\<open>except Exception\<close>
  ends in the handler, which prints it; the function then returns normally.
\<close>

definition fetch_and_analyze_data :: "decoder \<Rightarrow> cycle \<Rightarrow> server \<Rightarrow> server" where
  "fetch_and_analyze_data json_loads c s =
     (if \<not> es s \<or> \<not> model s then print AnalysisSkipped s
      else
        let s1 = print RunningAnalysis s in
        case query c of
          Inl e \<Rightarrow> print (TaskError e) s1
        | Inr (aggs, total_events) \<Rightarrow>
            if py_eq_zero total_events then print NoNewEvents s1
            else
              (case compose_briefing total_events aggs of
                 Inl e \<Rightarrow> print (TaskError e) s1
               | Inr briefing \<Rightarrow>
                   let s2 = print SendingData s1 in
                   (case summarize json_loads c of
                      Inl e \<Rightarrow> print (TaskError e) s2
                    | Inr ai_result \<Rightarrow>
                        print CacheUpdated (s2\<lparr>ai_analysis_cache := ai_result\<rparr>))))"

text \<open>The task run once for each element of a list, in order.\<close>

definition run_cycles :: "decoder \<Rightarrow> cycle list \<Rightarrow> server \<Rightarrow> server" where
  "run_cycles json_loads cs s = foldl (\<lambda>s' c. fetch_and_analyze_data json_loads c s') s cs"

section \<open>The HTTP handlers\<close>

text \<open>
  A handler returns a JSON body with a status code. In the error branch of the dashboard
  handler the body is \<^verbatim>\<open>{"error": str(e)}\<close>; the model keeps the exception in place
  of its text.
\<close>

datatype payload = Json pyval | ErrorOf py_exception

record http_response =
  status_code :: nat
  payload :: payload

text \<open>\<^verbatim>\<open>GET /api/ai-analysis\<close>: \<^verbatim>\<open>jsonify(ai_analysis_cache)\<close>.\<close>

definition get_ai_analysis :: "server \<Rightarrow> http_response" where
  "get_ai_analysis s = \<lparr>status_code = 200, payload = Json (ai_analysis_cache s)\<rparr>"

text \<open>The local function \<^verbatim>\<open>format_buckets\<close> of the dashboard handler.\<close>

definition format_bucket :: "pyval \<Rightarrow> pyval raising" where
  "format_bucket bucket =
     bindE (py_getitem bucket ''key'') (\<lambda>k.
     bindE (py_getitem bucket ''doc_count'') (\<lambda>n.
     Inr (PDict [(''name'', k), (''value'', n)])))"

definition format_buckets :: "pyval \<Rightarrow> pyval raising" where
  "format_buckets agg_data =
     (if \<not> py_truthy agg_data then Inr (PList [])
      else
        bindE (py_contains ''buckets'' agg_data) (\<lambda>present.
        if \<not> present then Inr (PList [])
        else
          bindE (py_getitem agg_data ''buckets'') (\<lambda>buckets.
          bindE (py_iter buckets) (\<lambda>bs.
          bindE (mapE format_bucket bs) (\<lambda>formatted.
          Inr (PList formatted))))))"

text \<open>\<^verbatim>\<open>buckets[0]['key'] if buckets else 'N/A'\<close>\<close>

definition top_key :: "pyval \<Rightarrow> pyval raising" where
  "top_key buckets =
     (if py_truthy buckets then bindE (py_getitem0 buckets) (\<lambda>b. py_getitem b ''key'')
      else Inr (PStr ''N/A''))"

text \<open>One entry of \<^verbatim>\<open>map_recent_attacks\<close>, for a hit \<open>h\<close> that passed the filter.\<close>

definition attack_entry :: "pyval \<Rightarrow> pyval raising" where
  "attack_entry h =
     bindE (py_getitem h ''_source'') (\<lambda>src.
     bindE (py_getitem src ''geoip'') (\<lambda>geoip.
     bindE (py_getitem geoip ''location'') (\<lambda>location.
     bindE (py_getitem location ''lat'') (\<lambda>lat.
     bindE (py_getitem location ''lon'') (\<lambda>lon.
     bindE (py_get src ''source_ip'' (PStr ''N/A'')) (\<lambda>ip.
     bindE (py_get geoip ''country_name'' (PStr ''N/A'')) (\<lambda>country.
     bindE (py_get src ''honeypot'' (PStr ''N/A'')) (\<lambda>honeypot.
     Inr (PDict [(''lat'', lat), (''lon'', lon), (''ip'', ip), (''country'', country),
                 (''honeypot'', honeypot)])))))))))"

text \<open>
  The comprehension over the hits: a hit is kept when
  \<^verbatim>\<open>h.get('_source', {}).get('geoip', {}).get('location')\<close> is true.
\<close>

fun recent_attacks :: "pyval list \<Rightarrow> pyval list raising" where
  "recent_attacks [] = Inr []"
| "recent_attacks (h # hs) =
     bindE (py_get h ''_source'' (PDict [])) (\<lambda>src.
     bindE (py_get src ''geoip'' (PDict [])) (\<lambda>geoip.
     bindE (py_get geoip ''location'' PNone) (\<lambda>location.
     if py_truthy location
       then bindE (attack_entry h) (\<lambda>entry.
            bindE (recent_attacks hs) (\<lambda>entries. Inr (entry # entries)))
     else recent_attacks hs)))"

text \<open>The body of the \<^verbatim>\<open>try\<close> block of the dashboard handler, from the response on.\<close>

definition dashboard_data :: "pyval \<Rightarrow> pyval raising" where
  "dashboard_data response =
     bindE (py_get response ''aggregations'' (PDict [])) (\<lambda>aggregations.
     bindE (py_get aggregations ''attacks_by_country'' (PDict [])) (\<lambda>by_country.
     bindE (py_get by_country ''buckets'' (PList [])) (\<lambda>country_buckets.
     bindE (py_get aggregations ''attacks_by_honeypot'' (PDict [])) (\<lambda>by_honeypot.
     bindE (py_get by_honeypot ''buckets'' (PList [])) (\<lambda>honeypot_buckets.
     bindE (py_getitem response ''hits'') (\<lambda>hits.
     bindE (py_getitem hits ''total'') (\<lambda>total.
     bindE (py_getitem total ''value'') (\<lambda>kpi_total_attacks.
     bindE (py_get aggregations ''unique_attackers'' (PDict [])) (\<lambda>unique.
     bindE (py_get unique ''value'' (PInt 0)) (\<lambda>kpi_unique_attackers.
     bindE (top_key country_buckets) (\<lambda>kpi_top_country.
     bindE (top_key honeypot_buckets) (\<lambda>kpi_top_honeypot.
     bindE (py_get aggregations ''attacks_over_time'' PNone) (\<lambda>over_time.
     bindE (format_buckets over_time) (\<lambda>chart_attacks_over_time.
     bindE (py_get aggregations ''attacks_by_country'' PNone) (\<lambda>a1.
     bindE (format_buckets a1) (\<lambda>chart_attacks_by_country.
     bindE (py_get aggregations ''attacks_by_honeypot'' PNone) (\<lambda>a2.
     bindE (format_buckets a2) (\<lambda>chart_attacks_by_honeypot.
     bindE (py_get aggregations ''top_attacked_ports'' PNone) (\<lambda>a3.
     bindE (format_buckets a3) (\<lambda>chart_top_ports.
     bindE (py_get aggregations ''top_attacker_ips'' PNone) (\<lambda>a4.
     bindE (format_buckets a4) (\<lambda>table_top_attackers.
     bindE (bucket_keys aggregations ''top_usernames'') (\<lambda>list_top_usernames.
     bindE (bucket_keys aggregations ''top_passwords'') (\<lambda>list_top_passwords.
     bindE (py_getitem response ''hits'') (\<lambda>hits'.
     bindE (py_getitem hits' ''hits'') (\<lambda>hit_list.
     bindE (py_iter hit_list) (\<lambda>hs.
     bindE (recent_attacks hs) (\<lambda>map_recent_attacks.
     Inr (PDict
       [(''kpi_total_attacks'', kpi_total_attacks),
        (''kpi_unique_attackers'', kpi_unique_attackers),
        (''kpi_top_country'', kpi_top_country),
        (''kpi_top_honeypot'', kpi_top_honeypot),
        (''chart_attacks_over_time'', chart_attacks_over_time),
        (''chart_attacks_by_country'', chart_attacks_by_country),
        (''chart_attacks_by_honeypot'', chart_attacks_by_honeypot),
        (''chart_top_ports'', chart_top_ports),
        (''table_top_attackers'', table_top_attackers),
        (''list_top_usernames'', list_top_usernames),
        (''list_top_passwords'', list_top_passwords),
        (''map_recent_attacks'', PList map_recent_attacks)])
     ))))))))))))))))))))))))))))"

text \<open>
  \<^verbatim>\<open>GET /api/dashboard\<close>. The argument \<open>search\<close> is the outcome of the handler's
  \<^verbatim>\<open>es.search\<close> call.
\<close>

definition get_dashboard_data :: "pyval raising \<Rightarrow> server \<Rightarrow> http_response \<times> server" where
  "get_dashboard_data search s =
     (if \<not> es s
        then (\<lparr>status_code = 500,
               payload = Json (PDict [(''error'', PStr ''Elasticsearch connection not available'')])\<rparr>,
              s)
      else
        case bindE search dashboard_data of
          Inr data \<Rightarrow> (\<lparr>status_code = 200, payload = Json data\<rparr>, s)
        | Inl e \<Rightarrow> (\<lparr>status_code = 500, payload = ErrorOf e\<rparr>, print (DashboardError e) s))"

text \<open>What a client reads under \<^verbatim>\<open>chart_attacks_over_time\<close> in a response.\<close>

definition chart_attacks_over_time :: "http_response \<Rightarrow> pyval raising" where
  "chart_attacks_over_time r =
     (case payload r of
        Json data \<Rightarrow> py_getitem data ''chart_attacks_over_time''
      | ErrorOf e \<Rightarrow> Inl e)"

section \<open>Notions of the specification\<close>

text \<open>
  How a run of the task ended: the last message it printed. The run committed when that
  message is \<open>CacheUpdated\<close>, and was skipped otherwise.
\<close>

definition outcome :: "decoder \<Rightarrow> cycle \<Rightarrow> server \<Rightarrow> message" where
  "outcome json_loads c s = last (stdout (fetch_and_analyze_data json_loads c s))"

text \<open>
  The most recent run that committed, among the runs of the task on the elements of a
  list, in order, from the state \<open>s\<close>; \<open>None\<close> when no run committed. A commit by a
  later run counts before a commit by the run on the head of the list.
\<close>

fun last_commit :: "decoder \<Rightarrow> cycle list \<Rightarrow> server \<Rightarrow> cycle option" where
  "last_commit json_loads [] s = None"
| "last_commit json_loads (c # cs) s =
     (case last_commit json_loads cs (fetch_and_analyze_data json_loads c s) of
        Some c' \<Rightarrow> Some c'
      | None \<Rightarrow> if outcome json_loads c s = CacheUpdated then Some c else None)"

text \<open>
  The specification's check of a decoded result: the three required fields
  \<^verbatim>\<open>summary\<close>, \<^verbatim>\<open>threat_type\<close> and \<^verbatim>\<open>recommendations\<close> are present.
\<close>

definition has_required_fields :: "pyval \<Rightarrow> bool" where
  "has_required_fields v =
     (case v of
        PDict d \<Rightarrow> map_of d ''summary'' \<noteq> None \<and> map_of d ''threat_type'' \<noteq> None
                   \<and> map_of d ''recommendations'' \<noteq> None
      | _ \<Rightarrow> False)"

text \<open>
  The specification's Briefing: a string \<^verbatim>\<open>summary\<close>, a string \<^verbatim>\<open>threat_type\<close>, a
  sequence of strings \<^verbatim>\<open>recommendations\<close>, and \<^verbatim>\<open>last_updated\<close>, a timestamp, or
  \<^verbatim>\<open>None\<close> as in the placeholder.
\<close>

definition is_str :: "pyval \<Rightarrow> bool" where
  "is_str v = (case v of PStr _ \<Rightarrow> True | _ \<Rightarrow> False)"

definition valid_briefing :: "pyval \<Rightarrow> bool" where
  "valid_briefing v =
     (case v of
        PDict d \<Rightarrow>
          (case map_of d ''summary'' of Some x \<Rightarrow> is_str x | None \<Rightarrow> False)
          \<and> (case map_of d ''threat_type'' of Some x \<Rightarrow> is_str x | None \<Rightarrow> False)
          \<and> (case map_of d ''recommendations'' of
                Some (PList xs) \<Rightarrow> list_all is_str xs | _ \<Rightarrow> False)
          \<and> (case map_of d ''last_updated'' of
                Some x \<Rightarrow> is_str x \<or> x = PNone | None \<Rightarrow> False)
      | _ \<Rightarrow> False)"

text \<open>
  The order of two strings, code point by code point. On the timestamps that
  \<^verbatim>\<open>isoformat\<close> produces it is the order in time.
\<close>

fun str_less :: "string \<Rightarrow> string \<Rightarrow> bool" where
  "str_less [] [] = False"
| "str_less [] (y # ys) = True"
| "str_less (x # xs) [] = False"
| "str_less (x # xs) (y # ys) =
     ((of_char x :: nat) < of_char y \<or> (x = y \<and> str_less xs ys))"

text \<open>
  \<open>strictly_later post pre\<close>: the value \<open>post\<close> of \<^verbatim>\<open>last_updated\<close> is a timestamp
  later than \<open>pre\<close>. Every timestamp is later than the \<^verbatim>\<open>None\<close> of the placeholder.
\<close>

definition strictly_later :: "pyval \<Rightarrow> pyval \<Rightarrow> bool" where
  "strictly_later post pre =
     (case post of
        PStr b \<Rightarrow> (case pre of PNone \<Rightarrow> True | PStr a \<Rightarrow> str_less a b | _ \<Rightarrow> False)
      | _ \<Rightarrow> False)"

section \<open>Concrete inputs\<close>

text \<open>A response of the store to the 15-minute query: 200 events.\<close>

definition bucket :: "pyval \<Rightarrow> int \<Rightarrow> pyval" where
  "bucket k n = PDict [(''key'', k), (''doc_count'', PInt n)]"

definition busy_aggregations :: pyval where
  "busy_aggregations = PDict
     [(''unique_ips'', PDict [(''value'', PInt 12)]),
      (''top_countries'', PDict
         [(''buckets'', PList [bucket (PStr ''CN'') 120, bucket (PStr ''RU'') 80])]),
      (''top_honeypots'', PDict
         [(''buckets'', PList [bucket (PStr ''cowrie'') 150, bucket (PStr ''dionaea'') 50])]),
      (''top_ports'', PDict
         [(''buckets'', PList [bucket (PInt 22) 150, bucket (PInt 445) 50])]),
      (''top_passwords'', PDict
         [(''buckets'', PList [bucket (PStr ''123456'') 30])])]"

definition busy_response :: pyval where
  "busy_response = PDict
     [(''took'', PInt 3),
      (''timed_out'', PBool False),
      (''hits'', PDict
         [(''total'', PDict [(''value'', PInt 200), (''relation'', PStr ''eq'')]),
          (''max_score'', PNone),
          (''hits'', PList [])]),
      (''aggregations'', busy_aggregations)]"

text \<open>The values that the briefing embeds for this response.\<close>

definition busy_briefing :: "pyval list" where
  "busy_briefing =
     [PInt 200, PInt 12, PList [PStr ''CN'', PStr ''RU''],
      PList [PStr ''cowrie'', PStr ''dionaea''], PList [PInt 22, PInt 445],
      PList [PStr ''123456'']]"

text \<open>The response of the store when no event matched the window.\<close>

definition quiet_aggregations :: pyval where
  "quiet_aggregations = PDict
     [(''unique_ips'', PDict [(''value'', PInt 0)]),
      (''top_countries'', PDict [(''buckets'', PList [])]),
      (''top_honeypots'', PDict [(''buckets'', PList [])]),
      (''top_ports'', PDict [(''buckets'', PList [])]),
      (''top_passwords'', PDict [(''buckets'', PList [])])]"

definition quiet_response :: pyval where
  "quiet_response = PDict
     [(''took'', PInt 1),
      (''timed_out'', PBool False),
      (''hits'', PDict
         [(''total'', PDict [(''value'', PInt 0), (''relation'', PStr ''eq'')]),
          (''max_score'', PNone),
          (''hits'', PList [])]),
      (''aggregations'', quiet_aggregations)]"

text \<open>Replies of the summarization service, and the objects they denote.\<close>

definition full_reply :: string where
  \<open>full_reply = ''{"summary": "Automated SSH scanning from two countries.", "threat_type": "SSH Brute-Force", "recommendations": ["Block the top source addresses.", "Disable password logins."]}''\<close>

definition full_object :: "(string \<times> pyval) list" where
  "full_object =
     [(''summary'', PStr ''Automated SSH scanning from two countries.''),
      (''threat_type'', PStr ''SSH Brute-Force''),
      (''recommendations'',
         PList [PStr ''Block the top source addresses.'', PStr ''Disable password logins.''])]"

definition partial_reply :: string where
  \<open>partial_reply = ''{"summary": "Automated SSH scanning from two countries."}''\<close>

definition partial_object :: "(string \<times> pyval) list" where
  "partial_object = [(''summary'', PStr ''Automated SSH scanning from two countries.'')]"

definition quoting_reply :: string where
  \<open>quoting_reply = ''{"summary": "Scanners probe SSH.", "threat_type": "SSH Brute-Force", "recommendations": ["Run ```fail2ban-client status``` daily."]}''\<close>

definition quoting_object :: "(string \<times> pyval) list" where
  "quoting_object =
     [(''summary'', PStr ''Scanners probe SSH.''),
      (''threat_type'', PStr ''SSH Brute-Force''),
      (''recommendations'', PList [PStr ''Run ```fail2ban-client status``` daily.''])]"

definition unquoted_reply :: string where
  \<open>unquoted_reply = ''{"summary": "Scanners probe SSH.", "threat_type": "SSH Brute-Force", "recommendations": ["Run fail2ban-client status daily."]}''\<close>

definition unquoted_object :: "(string \<times> pyval) list" where
  "unquoted_object =
     [(''summary'', PStr ''Scanners probe SSH.''),
      (''threat_type'', PStr ''SSH Brute-Force''),
      (''recommendations'', PList [PStr ''Run fail2ban-client status daily.''])]"

definition refusal_reply :: string where
  "refusal_reply = ''I am unable to analyse this data.''"

text \<open>
  The standard decoder on the texts that the examples of this theory hand to it. It
  skips the blanks around a document (space, tab, line feed, carriage return). The
  documents listed decode to the values beside them. The other texts that the examples
  decode are \<open>refusal_reply\<close> and a document with the letters \<^verbatim>\<open>JSON\<close> before it; they
  are not JSON, and \<^verbatim>\<open>json.loads\<close> raises \<^verbatim>\<open>JSONDecodeError\<close> on them.
\<close>

definition json_blank :: "char \<Rightarrow> bool" where
  "json_blank c = ((of_char c :: nat) \<in> {32, 9, 10, 13})"

definition example_documents :: "(string \<times> pyval) list" where
  "example_documents =
     [(''{}'', PDict []),
      (''[]'', PList []),
      (full_reply, PDict full_object),
      (partial_reply, PDict partial_object),
      (quoting_reply, PDict quoting_object),
      (unquoted_reply, PDict unquoted_object)]"

definition example_loads :: decoder where
  "example_loads text =
     (case map_of example_documents
             (rev (dropWhile json_blank (rev (dropWhile json_blank text)))) of
        Some v \<Rightarrow> Inr v
      | None \<Rightarrow> Inl JSONDecodeError)"

text \<open>A run of the task that meets the busy store and the given reply at the given time.\<close>

definition busy_cycle :: "string \<Rightarrow> string \<Rightarrow> cycle" where
  "busy_cycle reply now =
     \<lparr>search_result = Inr busy_response, generate_result = Inr (Inr reply), now_iso = now\<rparr>"

text \<open>A run in which the store cannot be reached, and one in which the window is empty.\<close>

definition failing_cycle :: cycle where
  "failing_cycle =
     \<lparr>search_result = Inl (OtherException ''ConnectionTimeout''),
      generate_result = Inr (Inr full_reply), now_iso = ''2025-11-02T09:10:10.250113''\<rparr>"

definition quiet_cycle :: cycle where
  "quiet_cycle =
     \<lparr>search_result = Inr quiet_response,
      generate_result = Inr (Inr full_reply), now_iso = ''2025-11-02T09:20:10.250731''\<rparr>"

text \<open>
  A response of the store to the dashboard query with 25 hourly buckets: the hours from
  2025-11-01 09:00 UTC to 2025-11-02 09:00 UTC, both included, keyed by their start in
  milliseconds; the 200 events fall into the last three hours.
\<close>

definition hourly_counts :: "int list" where
  "hourly_counts = replicate 22 0 @ [60, 90, 50]"

definition hourly_keys :: "int list" where
  "hourly_keys = map (\<lambda>i. 1761987600000 + 3600000 * int i) [0..<25]"

definition hourly_buckets :: "pyval list" where
  "hourly_buckets = map (\<lambda>(k, n). bucket (PInt k) n) (zip hourly_keys hourly_counts)"

definition hourly_aggregations :: pyval where
  "hourly_aggregations = PDict
     [(''unique_attackers'', PDict [(''value'', PInt 12)]),
      (''attacks_over_time'', PDict [(''buckets'', PList hourly_buckets)]),
      (''attacks_by_country'', PDict
         [(''buckets'', PList [bucket (PStr ''CN'') 120, bucket (PStr ''RU'') 80])]),
      (''attacks_by_honeypot'', PDict
         [(''buckets'', PList [bucket (PStr ''cowrie'') 150, bucket (PStr ''dionaea'') 50])]),
      (''top_attacked_ports'', PDict
         [(''buckets'', PList [bucket (PInt 22) 150, bucket (PInt 445) 50])]),
      (''top_attacker_ips'', PDict
         [(''buckets'', PList [bucket (PStr ''203.0.113.7'') 200])]),
      (''top_usernames'', PDict [(''buckets'', PList [bucket (PStr ''root'') 200])]),
      (''top_passwords'', PDict [(''buckets'', PList [bucket (PStr ''123456'') 30])])]"

definition hourly_response :: pyval where
  "hourly_response = PDict
     [(''took'', PInt 5),
      (''timed_out'', PBool False),
      (''hits'', PDict
         [(''total'', PDict [(''value'', PInt 200), (''relation'', PStr ''eq'')]),
          (''max_score'', PNone),
          (''hits'', PList [])]),
      (''aggregations'', hourly_aggregations)]"

definition hourly_series :: "pyval list" where
  "hourly_series =
     map (\<lambda>(k, n). PDict [(''name'', PInt k), (''value'', PInt n)]) (zip hourly_keys hourly_counts)"

section \<open>Facts about the string operations\<close>

lemma py_replace_Nil: "old \<noteq> [] \<Longrightarrow> py_replace old new [] = []"
  by (simp add: py_replace.simps)

lemma py_replace_match:
  "old \<noteq> [] \<Longrightarrow> py_replace old new (old @ s) = new @ py_replace old new s"
  by (subst py_replace.simps) simp

lemma py_replace_step:
  "old \<noteq> [] \<Longrightarrow> take (length old) (c # cs) \<noteq> old \<Longrightarrow>
     py_replace old new (c # cs) = c # py_replace old new cs"
  by (subst py_replace.simps) simp

lemma str_contains_set: "str_contains old t \<Longrightarrow> set old \<subseteq> set t"
proof (induction t)
  case Nil
  then show ?case by simp
next
  case (Cons c cs)
  show ?case
  proof (cases "take (length old) (c # cs) = old")
    case True
    then have "set old = set (take (length old) (c # cs))" by simp
    also have "\<dots> \<subseteq> set (c # cs)" by (rule set_take_subset)
    finally show ?thesis .
  next
    case False
    with Cons show ?thesis by auto
  qed
qed

lemma take_append_old:
  assumes "old \<noteq> []" "last old \<notin> set t"
  shows "take (length old) (s @ t) = old \<longleftrightarrow> take (length old) s = old"
proof (cases "length old \<le> length s")
  case True
  then show ?thesis by simp
next
  case False
  then have short: "length s < length old" by simp
  define r where "r = take (length old - length s) t"
  have "take (length old) (s @ t) \<noteq> old"
  proof
    assume eq: "take (length old) (s @ t) = old"
    then have old: "old = s @ r" using short by (simp add: r_def)
    have "r \<noteq> []"
    proof
      assume "r = []"
      with old have "old = s" by simp
      with short show False by simp
    qed
    then have "last old = last r" using old by simp
    also have "\<dots> \<in> set r" using \<open>r \<noteq> []\<close> by (rule last_in_set)
    also have "set r \<subseteq> set t" unfolding r_def by (rule set_take_subset)
    finally show False using assms(2) by simp
  qed
  moreover have "take (length old) s \<noteq> old"
  proof
    assume "take (length old) s = old"
    then have "length (take (length old) s) = length old" by simp
    with short show False by simp
  qed
  ultimately show ?thesis by simp
qed


lemma str_contains_append:
  assumes "old \<noteq> []" "last old \<notin> set t"
  shows "str_contains old (s @ t) = str_contains old s"
proof (induction s)
  case Nil
  have "\<not> str_contains old t"
  proof
    assume "str_contains old t"
    then have "set old \<subseteq> set t" by (rule str_contains_set)
    moreover have "last old \<in> set old" using assms(1) by simp
    ultimately show False using assms(2) by auto
  qed
  with assms(1) show ?case by simp
next
  case (Cons c cs)
  have "take (length old) ((c # cs) @ t) = old \<longleftrightarrow> take (length old) (c # cs) = old"
    using assms by (rule take_append_old)
  with Cons show ?case by simp
qed

lemma str_contains_prefix: "str_contains (a @ b) s \<Longrightarrow> str_contains a s"
proof (induction s)
  case Nil
  then show ?case by simp
next
  case (Cons c cs)
  show ?case
  proof (cases "take (length (a @ b)) (c # cs) = a @ b")
    case True
    then have "take (length a) (take (length (a @ b)) (c # cs)) = take (length a) (a @ b)"
      by (rule arg_cong)
    then have "take (length a) (c # cs) = a" by (simp add: min_def)
    then show ?thesis by simp
  next
    case False
    with Cons show ?thesis by auto
  qed
qed

lemma py_replace_absent:
  "old \<noteq> [] \<Longrightarrow> \<not> str_contains old s \<Longrightarrow> py_replace old new s = s"
proof (induction s)
  case Nil
  then show ?case by (simp add: py_replace_Nil)
next
  case (Cons c cs)
  then show ?case by (simp add: py_replace_step)
qed

lemma fence_overlap:
  assumes "take (length ''```'') ((c # cs) @ ''```'') = ''```''"
    and "take (length ''```'') (c # cs) \<noteq> ''```''"
  shows "c # cs = ''`'' \<or> c # cs = ''``''"
proof (cases cs)
  case Nil
  with assms(1) show ?thesis by simp
next
  case outer: (Cons a r)
  show ?thesis
  proof (cases r)
    case Nil
    with outer assms(1) show ?thesis by simp
  next
    case (Cons b r')
    with outer assms show ?thesis by simp
  qed
qed

lemma remove_closing_fence:
  "\<not> str_contains ''```'' t \<Longrightarrow> py_replace ''```'' '''' (t @ ''```'') = t"
proof (induction t)
  case Nil
  have "py_replace ''```'' '''' (''```'' @ []) = '''' @ py_replace ''```'' '''' []"
    by (rule py_replace_match) simp
  then show ?case by (simp add: py_replace_Nil)
next
  case (Cons c cs)
  from Cons.prems
  have "\<not> (take (length ''```'') (c # cs) = ''```'' \<or> str_contains ''```'' cs)"
    unfolding str_contains.simps .
  then have nohead: "take (length ''```'') (c # cs) \<noteq> ''```''"
    and rest: "\<not> str_contains ''```'' cs"
    by blast+
  show ?case
  proof (cases "take (length ''```'') ((c # cs) @ ''```'') = ''```''")
    case False
    then have "take (length ''```'') (c # (cs @ ''```'')) \<noteq> ''```''"
      unfolding append_Cons .
    then have "py_replace ''```'' '''' (c # (cs @ ''```''))
        = c # py_replace ''```'' '''' (cs @ ''```'')"
      by (intro py_replace_step) simp
    with Cons.IH rest show ?thesis by simp
  next
    case True
    then have short: "c # cs = ''`'' \<or> c # cs = ''``''"
      using nohead by (rule fence_overlap)
    have "(c # cs) @ ''```'' = ''```'' @ (c # cs)"
      using short by auto
    moreover have "py_replace ''```'' '''' (''```'' @ (c # cs))
        = '''' @ py_replace ''```'' '''' (c # cs)"
      by (rule py_replace_match) simp
    moreover have "py_replace ''```'' '''' (c # cs) = c # cs"
      using short by (intro py_replace_absent) auto
    ultimately show ?thesis by simp
  qed
qed

lemma dropWhile_keeps:
  "x \<noteq> [] \<Longrightarrow> \<not> P (hd x) \<Longrightarrow> dropWhile P (x @ ys) = x @ ys"
  by (cases x) simp_all

lemma py_strip_padded:
  assumes "list_all py_isspace pre" "list_all py_isspace post"
    and "x \<noteq> []" "\<not> py_isspace (hd x)" "\<not> py_isspace (last x)"
  shows "py_strip (pre @ x @ post) = x"
proof -
  have "dropWhile py_isspace (pre @ (x @ post)) = dropWhile py_isspace (x @ post)"
    using assms(1) by (intro dropWhile_append2) (simp add: list_all_iff)
  then have left: "dropWhile py_isspace (pre @ x @ post) = x @ post"
    using assms(3,4) by (simp add: dropWhile_keeps)
  have "rev x \<noteq> []" "hd (rev x) = last x"
    using assms(3) by (simp_all add: hd_rev)
  then have "dropWhile py_isspace (rev x @ []) = rev x @ []"
    using assms(5) by (intro dropWhile_keeps) simp_all
  moreover have "dropWhile py_isspace (rev post @ rev x) = dropWhile py_isspace (rev x)"
    using assms(2) by (intro dropWhile_append2) (simp add: list_all_iff)
  ultimately have right: "dropWhile py_isspace (rev post @ rev x) = rev x"
    by simp
  show ?thesis unfolding py_strip_def left using right by simp
qed

section \<open>How a run of the task ends\<close>

lemma summarize_Inr:
  "summarize jl c = Inr r \<Longrightarrow>
     \<exists>text d. generate_result c = Inr (Inr text) \<and> jl (clean_response text) = Inr (PDict d)
        \<and> r = PDict (AList.update ''last_updated'' (PStr (now_iso c)) d)"
  unfolding summarize_def bindE_def
  by (auto split: sum.splits elim: py_setitem.elims)

lemma summarize_decoded:
  "generate_result c = Inr (Inr text) \<Longrightarrow> jl (clean_response text) = Inr (PDict d) \<Longrightarrow>
     summarize jl c = Inr (PDict (AList.update ''last_updated'' (PStr (now_iso c)) d))"
  by (simp add: summarize_def bindE_def)

text \<open>The two ways a run of the task can end.\<close>

lemma fetch_shape:
  "(\<exists>msgs. fetch_and_analyze_data jl c s = s\<lparr>stdout := stdout s @ msgs\<rparr>
       \<and> msgs \<noteq> [] \<and> CacheUpdated \<notin> set msgs)
   \<or> (\<exists>text d. generate_result c = Inr (Inr text) \<and> jl (clean_response text) = Inr (PDict d)
         \<and> fetch_and_analyze_data jl c s =
         s\<lparr>ai_analysis_cache := PDict (AList.update ''last_updated'' (PStr (now_iso c)) d),
           stdout := stdout s @ [RunningAnalysis, SendingData, CacheUpdated]\<rparr>)"
proof (cases "\<not> es s \<or> \<not> model s")
  case True
  then have "fetch_and_analyze_data jl c s = s\<lparr>stdout := stdout s @ [AnalysisSkipped]\<rparr>"
    by (simp add: fetch_and_analyze_data_def print_def)
  then show ?thesis by auto
next
  case up: False
  show ?thesis
  proof (cases "query c")
    case (Inl e)
    with up have "fetch_and_analyze_data jl c s
        = s\<lparr>stdout := stdout s @ [RunningAnalysis, TaskError e]\<rparr>"
      by (simp add: fetch_and_analyze_data_def print_def)
    then show ?thesis by auto
  next
    case (Inr q)
    obtain aggs total_events where q: "q = (aggs, total_events)" by (cases q)
    show ?thesis
    proof (cases "py_eq_zero total_events")
      case True
      with up Inr q have "fetch_and_analyze_data jl c s
          = s\<lparr>stdout := stdout s @ [RunningAnalysis, NoNewEvents]\<rparr>"
        by (simp add: fetch_and_analyze_data_def print_def)
      then show ?thesis by auto
    next
      case nz: False
      show ?thesis
      proof (cases "compose_briefing total_events aggs")
        case (Inl e)
        with up Inr q nz have "fetch_and_analyze_data jl c s
            = s\<lparr>stdout := stdout s @ [RunningAnalysis, TaskError e]\<rparr>"
          by (simp add: fetch_and_analyze_data_def print_def)
        then show ?thesis by auto
      next
        case br: (Inr briefing)
        show ?thesis
        proof (cases "summarize jl c")
          case (Inl e)
          with up Inr q nz br have "fetch_and_analyze_data jl c s =
              s\<lparr>stdout := stdout s @ [RunningAnalysis, SendingData, TaskError e]\<rparr>"
            by (simp add: fetch_and_analyze_data_def print_def)
          then show ?thesis by auto
        next
          case ok: (Inr r)
          from summarize_Inr[OF ok] obtain reply d where
            g: "generate_result c = Inr (Inr reply)" "jl (clean_response reply) = Inr (PDict d)"
            and r: "r = PDict (AList.update ''last_updated'' (PStr (now_iso c)) d)" by blast
          with up Inr q nz br ok have "fetch_and_analyze_data jl c s =
              s\<lparr>ai_analysis_cache := PDict (AList.update ''last_updated'' (PStr (now_iso c)) d),
                stdout := stdout s @ [RunningAnalysis, SendingData, CacheUpdated]\<rparr>"
            by (simp add: fetch_and_analyze_data_def print_def)
          with g show ?thesis by blast
        qed
      qed
    qed
  qed
qed

lemma fetch_skipped_or_committed:
  obtains (skipped) msgs where
      "fetch_and_analyze_data jl c s = s\<lparr>stdout := stdout s @ msgs\<rparr>"
      and "msgs \<noteq> []" and "CacheUpdated \<notin> set msgs"
  | (committed) reply d where
      "generate_result c = Inr (Inr reply)" and "jl (clean_response reply) = Inr (PDict d)"
      and "fetch_and_analyze_data jl c s =
         s\<lparr>ai_analysis_cache := PDict (AList.update ''last_updated'' (PStr (now_iso c)) d),
           stdout := stdout s @ [RunningAnalysis, SendingData, CacheUpdated]\<rparr>"
  using fetch_shape[of jl c s] by blast

lemma outcome_committed:
  assumes "outcome jl c s = CacheUpdated"
  obtains reply d where
      "generate_result c = Inr (Inr reply)" and "jl (clean_response reply) = Inr (PDict d)"
      and "fetch_and_analyze_data jl c s =
         s\<lparr>ai_analysis_cache := PDict (AList.update ''last_updated'' (PStr (now_iso c)) d),
           stdout := stdout s @ [RunningAnalysis, SendingData, CacheUpdated]\<rparr>"
proof (cases rule: fetch_skipped_or_committed[of jl c s])
  case (skipped msgs)
  then have "outcome jl c s = last msgs" by (simp add: outcome_def)
  moreover have "last msgs \<in> set msgs" using skipped(2) by simp
  ultimately show ?thesis using assms skipped(3) by simp
next
  case (committed reply d)
  then show ?thesis using that by blast
qed

section \<open>The cache under the background task\<close>

lemma run_cycles_Nil: "run_cycles jl [] s = s"
  by (simp add: run_cycles_def)

lemma run_cycles_Cons:
  "run_cycles jl (c # cs) s = run_cycles jl cs (fetch_and_analyze_data jl c s)"
  by (simp add: run_cycles_def)

lemma stdout_fetch_grows:
  "set (stdout s) \<subseteq> set (stdout (fetch_and_analyze_data jl c s))"
  by (cases rule: fetch_skipped_or_committed[of jl c s]) auto

lemma stdout_run_grows:
  "set (stdout s) \<subseteq> set (stdout (run_cycles jl cs s))"
proof (induction cs arbitrary: s)
  case Nil
  show ?case by (simp add: run_cycles_Nil)
next
  case (Cons c cs)
  have "set (stdout s) \<subseteq> set (stdout (fetch_and_analyze_data jl c s))"
    by (rule stdout_fetch_grows)
  also have "\<dots> \<subseteq> set (stdout (run_cycles jl cs (fetch_and_analyze_data jl c s)))"
    by (rule Cons.IH)
  finally show ?case by (simp add: run_cycles_Cons)
qed

lemma no_commit_keeps_cache:
  assumes "CacheUpdated \<notin> set (stdout (fetch_and_analyze_data jl c s))"
  shows "ai_analysis_cache (fetch_and_analyze_data jl c s) = ai_analysis_cache s"
  using assms by (cases rule: fetch_skipped_or_committed[of jl c s]) auto

lemma no_commit_run_keeps_cache:
  "CacheUpdated \<notin> set (stdout (run_cycles jl cs s)) \<Longrightarrow>
     ai_analysis_cache (run_cycles jl cs s) = ai_analysis_cache s"
proof (induction cs arbitrary: s)
  case Nil
  show ?case by (simp add: run_cycles_Nil)
next
  case (Cons c cs)
  let ?s1 = "fetch_and_analyze_data jl c s"
  from Cons.prems have later: "CacheUpdated \<notin> set (stdout (run_cycles jl cs ?s1))"
    by (simp add: run_cycles_Cons)
  then have "ai_analysis_cache (run_cycles jl cs ?s1) = ai_analysis_cache ?s1"
    by (rule Cons.IH)
  moreover have "CacheUpdated \<notin> set (stdout ?s1)"
    using later stdout_run_grows[of ?s1 jl cs] by blast
  then have "ai_analysis_cache ?s1 = ai_analysis_cache s"
    by (rule no_commit_keeps_cache)
  ultimately show ?case by (simp add: run_cycles_Cons)
qed

text \<open>What the cache holds at any time: the placeholder, or a decoded object with its timestamp.\<close>

lemma cache_shape_fetch:
  assumes "ai_analysis_cache s = placeholder
      \<or> (\<exists>d t. ai_analysis_cache s = PDict (AList.update ''last_updated'' (PStr t) d))"
  shows "ai_analysis_cache (fetch_and_analyze_data jl c s) = placeholder
      \<or> (\<exists>d t. ai_analysis_cache (fetch_and_analyze_data jl c s)
            = PDict (AList.update ''last_updated'' (PStr t) d))"
proof (cases rule: fetch_skipped_or_committed[of jl c s])
  case (skipped msgs)
  then show ?thesis using assms by simp
next
  case (committed reply d)
  then show ?thesis by auto
qed

lemma cache_shape_run:
  assumes "ai_analysis_cache s = placeholder
      \<or> (\<exists>d t. ai_analysis_cache s = PDict (AList.update ''last_updated'' (PStr t) d))"
  shows "ai_analysis_cache (run_cycles jl cs s) = placeholder
      \<or> (\<exists>d t. ai_analysis_cache (run_cycles jl cs s)
            = PDict (AList.update ''last_updated'' (PStr t) d))"
  using assms
proof (induction cs arbitrary: s)
  case Nil
  then show ?case by (simp add: run_cycles_Nil)
next
  case (Cons c cs)
  from Cons.prems have "ai_analysis_cache (fetch_and_analyze_data jl c s) = placeholder
      \<or> (\<exists>d t. ai_analysis_cache (fetch_and_analyze_data jl c s)
            = PDict (AList.update ''last_updated'' (PStr t) d))"
    by (rule cache_shape_fetch)
  then show ?case unfolding run_cycles_Cons by (rule Cons.IH)
qed

lemma fetch_commits:
  assumes "es s" and "model s"
    and "query c = Inr (aggs, total_events)" and "\<not> py_eq_zero total_events"
    and "compose_briefing total_events aggs = Inr briefing"
    and "generate_result c = Inr (Inr reply)"
    and "jl (clean_response reply) = Inr (PDict d)"
  shows "fetch_and_analyze_data jl c s =
           s\<lparr>ai_analysis_cache := PDict (AList.update ''last_updated'' (PStr (now_iso c)) d),
             stdout := stdout s @ [RunningAnalysis, SendingData, CacheUpdated]\<rparr>"
  using assms summarize_decoded[of c reply jl d]
  by (simp add: fetch_and_analyze_data_def print_def)

lemma fetch_fails_at_summarize:
  assumes "es s" and "model s"
    and "query c = Inr (aggs, total_events)" and "\<not> py_eq_zero total_events"
    and "compose_briefing total_events aggs = Inr briefing"
    and "summarize jl c = Inl e"
  shows "fetch_and_analyze_data jl c s =
           s\<lparr>stdout := stdout s @ [RunningAnalysis, SendingData, TaskError e]\<rparr>"
  using assms by (simp add: fetch_and_analyze_data_def print_def)

text \<open>
  Claim C1, as the code has it. The task does not look at the fields of the decoded
  result. Whenever the store answered with a non-zero event count, the briefing could be
  composed, the service replied, and the cleaned reply decodes to a JSON object \<open>d\<close>,
  the task sets \<^verbatim>\<open>last_updated\<close> to the time of the run in \<open>d\<close> and replaces the cache
  by the result, whether or not \<open>d\<close> has \<^verbatim>\<open>summary\<close>, \<^verbatim>\<open>threat_type\<close> and
  \<^verbatim>\<open>recommendations\<close>.
\<close>

theorem decoded_object_overwrites_cache:
  assumes "es s" and "model s"
    and "query c = Inr (aggs, total_events)" and "\<not> py_eq_zero total_events"
    and "compose_briefing total_events aggs = Inr briefing"
    and "generate_result c = Inr (Inr reply)"
    and "json_loads (clean_response reply) = Inr (PDict d)"
  shows "fetch_and_analyze_data json_loads c s =
           s\<lparr>ai_analysis_cache := PDict (AList.update ''last_updated'' (PStr (now_iso c)) d),
             stdout := stdout s @ [RunningAnalysis, SendingData, CacheUpdated]\<rparr>"
  using assms by (rule fetch_commits)

text \<open>
  Claim C3. When the query to the analytics store raises an exception \<open>e\<close>, the handler
  of the task prints it and the task returns: the process state after the run is the
  state before it with the two messages added to the output, and the cache is the
  same.
\<close>

theorem query_failure_keeps_cache:
  assumes "es s" and "model s" and "search_result c = Inl e"
  shows "fetch_and_analyze_data json_loads c s
           = s\<lparr>stdout := stdout s @ [RunningAnalysis, TaskError e]\<rparr>
         \<and> ai_analysis_cache (fetch_and_analyze_data json_loads c s) = ai_analysis_cache s"
proof -
  from assms(3) have "query c = Inl e" by (simp add: query_def bindE_def)
  with assms(1,2) have "fetch_and_analyze_data json_loads c s
      = s\<lparr>stdout := stdout s @ [RunningAnalysis, TaskError e]\<rparr>"
    by (simp add: fetch_and_analyze_data_def print_def)
  then show ?thesis by simp
qed

text \<open>
  Claim C4. When the total number of matching events is zero, the task returns right
  after the query: it prints that there are no new events, it prints neither the message
  that precedes the call of the summarization service nor an error, and the cache is the
  same.
\<close>

theorem empty_window_skips:
  assumes "es s" and "model s"
    and "query c = Inr (aggs, total_events)" and "py_eq_zero total_events"
  shows "fetch_and_analyze_data json_loads c s
           = s\<lparr>stdout := stdout s @ [RunningAnalysis, NoNewEvents]\<rparr>
         \<and> ai_analysis_cache (fetch_and_analyze_data json_loads c s) = ai_analysis_cache s"
proof -
  from assms have "fetch_and_analyze_data json_loads c s
      = s\<lparr>stdout := stdout s @ [RunningAnalysis, NoNewEvents]\<rparr>"
    by (simp add: fetch_and_analyze_data_def print_def)
  then show ?thesis by simp
qed

text \<open>
  Claim C5, as the code has it. When the cleaned reply of the summarization service does
  not decode to a JSON object (the decoder raises, or returns a value that is not an
  object), the run does not commit, the cache is the same, and \<^verbatim>\<open>GET /api/ai-analysis\<close>
  answers as before the run.
\<close>

theorem undecodable_reply_keeps_cache:
  assumes "generate_result c = Inr (Inr reply)"
    and "\<forall>d. json_loads (clean_response reply) \<noteq> Inr (PDict d)"
  shows "outcome json_loads c s \<noteq> CacheUpdated
         \<and> ai_analysis_cache (fetch_and_analyze_data json_loads c s) = ai_analysis_cache s
         \<and> get_ai_analysis (fetch_and_analyze_data json_loads c s) = get_ai_analysis s"
proof (cases rule: fetch_skipped_or_committed[of json_loads c s])
  case (skipped msgs)
  then have "outcome json_loads c s = last msgs" by (simp add: outcome_def)
  moreover have "last msgs \<in> set msgs" using skipped(2) by simp
  ultimately have "outcome json_loads c s \<noteq> CacheUpdated" using skipped(3) by auto
  with skipped(1) show ?thesis by (simp add: get_ai_analysis_def)
next
  case (committed reply' d)
  with assms show ?thesis by auto
qed

text \<open>
  The value under \<^verbatim>\<open>last_updated\<close> after a sequence of runs: the one at the start, or
  the clock reading of one of the runs.
\<close>

lemma last_updated_fetch:
  assumes "py_getitem (ai_analysis_cache s) ''last_updated'' = Inr v"
  shows "py_getitem (ai_analysis_cache (fetch_and_analyze_data jl c s)) ''last_updated'' = Inr v
       \<or> py_getitem (ai_analysis_cache (fetch_and_analyze_data jl c s)) ''last_updated''
           = Inr (PStr (now_iso c))"
proof (cases rule: fetch_skipped_or_committed[of jl c s])
  case (skipped msgs)
  with assms show ?thesis by simp
next
  case (committed reply d)
  then show ?thesis by (simp add: update_conv')
qed

lemma last_updated_run:
  assumes "py_getitem (ai_analysis_cache s) ''last_updated'' = Inr v"
  shows "py_getitem (ai_analysis_cache (run_cycles jl cs s)) ''last_updated'' = Inr v
       \<or> (\<exists>c' \<in> set cs. py_getitem (ai_analysis_cache (run_cycles jl cs s)) ''last_updated''
             = Inr (PStr (now_iso c')))"
  using assms
proof (induction cs arbitrary: s v)
  case Nil
  then show ?case by (simp add: run_cycles_Nil)
next
  case (Cons c cs)
  let ?s1 = "fetch_and_analyze_data jl c s"
  from last_updated_fetch[OF Cons.prems, of jl c]
  show ?case
  proof
    assume "py_getitem (ai_analysis_cache ?s1) ''last_updated'' = Inr v"
    from Cons.IH[OF this] show ?thesis by (auto simp: run_cycles_Cons)
  next
    assume "py_getitem (ai_analysis_cache ?s1) ''last_updated'' = Inr (PStr (now_iso c))"
    from Cons.IH[OF this] show ?thesis by (auto simp: run_cycles_Cons)
  qed
qed

text \<open>
  Claim C6, as the code has it. Take any sequence of runs of the task from the start of
  the process in which the clock readings increase strictly from each run to the next.
  A run of it that commits stores its own clock reading under \<^verbatim>\<open>last_updated\<close>, and
  this value is strictly later than the value it replaces; for the first commit the
  value replaced is the \<^verbatim>\<open>None\<close> of the placeholder. The hypothesis is on the clock
  alone: nothing in the task makes the readings of the wall clock increase.
\<close>

theorem increasing_clock_gives_later_timestamp:
  assumes "sorted_wrt str_less (map now_iso (cs @ [c]))"
    and "outcome json_loads c (run_cycles json_loads cs (process_start e m)) = CacheUpdated"
  shows "\<exists>pre.
           py_getitem (ai_analysis_cache (run_cycles json_loads cs (process_start e m)))
             ''last_updated'' = Inr pre
         \<and> py_getitem (ai_analysis_cache (fetch_and_analyze_data json_loads c
               (run_cycles json_loads cs (process_start e m)))) ''last_updated''
             = Inr (PStr (now_iso c))
         \<and> strictly_later (PStr (now_iso c)) pre"
proof -
  let ?s = "run_cycles json_loads cs (process_start e m)"
  from assms(1) have earlier: "\<forall>c' \<in> set cs. str_less (now_iso c') (now_iso c)"
    by (simp add: sorted_wrt_append)
  have "py_getitem (ai_analysis_cache (process_start e m)) ''last_updated'' = Inr PNone"
    by (simp add: process_start_def placeholder_def)
  from last_updated_run[OF this, of json_loads cs]
  obtain pre where pre: "py_getitem (ai_analysis_cache ?s) ''last_updated'' = Inr pre"
    and cases: "pre = PNone \<or> (\<exists>c' \<in> set cs. pre = PStr (now_iso c'))"
    by auto
  from cases earlier have "strictly_later (PStr (now_iso c)) pre"
    by (auto simp: strictly_later_def)
  moreover from assms(2) obtain reply d where
    "fetch_and_analyze_data json_loads c ?s =
       ?s\<lparr>ai_analysis_cache := PDict (AList.update ''last_updated'' (PStr (now_iso c)) d),
         stdout := stdout ?s @ [RunningAnalysis, SendingData, CacheUpdated]\<rparr>"
    by (rule outcome_committed)
  then have "py_getitem (ai_analysis_cache (fetch_and_analyze_data json_loads c ?s))
      ''last_updated'' = Inr (PStr (now_iso c))"
    by (simp add: update_conv')
  ultimately show ?thesis using pre by blast
qed

lemma outcome_skipped_keeps_cache:
  assumes "outcome jl c s \<noteq> CacheUpdated"
  shows "ai_analysis_cache (fetch_and_analyze_data jl c s) = ai_analysis_cache s"
proof (cases rule: fetch_skipped_or_committed[of jl c s])
  case (skipped msgs)
  then show ?thesis by simp
next
  case (committed reply d)
  then have "outcome jl c s = CacheUpdated" by (simp add: outcome_def)
  with assms show ?thesis by simp
qed

lemma outcome_committed_summarize:
  assumes "outcome jl c s = CacheUpdated"
  shows "summarize jl c = Inr (ai_analysis_cache (fetch_and_analyze_data jl c s))"
proof -
  from assms obtain reply d where
    "generate_result c = Inr (Inr reply)" "jl (clean_response reply) = Inr (PDict d)"
    "fetch_and_analyze_data jl c s =
       s\<lparr>ai_analysis_cache := PDict (AList.update ''last_updated'' (PStr (now_iso c)) d),
         stdout := stdout s @ [RunningAnalysis, SendingData, CacheUpdated]\<rparr>"
    by (rule outcome_committed)
  then show ?thesis by (simp add: summarize_decoded)
qed

text \<open>The cache after a sequence of runs, by the most recent run that committed.\<close>

lemma cache_by_last_commit:
  "(case last_commit jl cs s of
      None \<Rightarrow> ai_analysis_cache (run_cycles jl cs s) = ai_analysis_cache s
    | Some c \<Rightarrow> summarize jl c = Inr (ai_analysis_cache (run_cycles jl cs s)))"
proof (induction cs arbitrary: s)
  case Nil
  show ?case by (simp add: run_cycles_Nil)
next
  case (Cons c cs)
  let ?s1 = "fetch_and_analyze_data jl c s"
  show ?case
  proof (cases "last_commit jl cs ?s1")
    case (Some c')
    with Cons.IH[of ?s1] show ?thesis by (simp add: run_cycles_Cons)
  next
    case None
    with Cons.IH[of ?s1] have rest: "ai_analysis_cache (run_cycles jl cs ?s1) = ai_analysis_cache ?s1"
      by simp
    show ?thesis
    proof (cases "outcome jl c s = CacheUpdated")
      case True
      then have "summarize jl c = Inr (ai_analysis_cache ?s1)"
        by (rule outcome_committed_summarize)
      with None True rest show ?thesis by (simp add: run_cycles_Cons)
    next
      case False
      then have "ai_analysis_cache ?s1 = ai_analysis_cache s"
        by (rule outcome_skipped_keeps_cache)
      with None False rest show ?thesis by (simp add: run_cycles_Cons)
    qed
  qed
qed

text \<open>
  Claim C2, as the code has it. From the start of the process on, after any sequence of
  runs of the task: when no run has committed, the cache holds the placeholder; otherwise
  it holds what the most recent run that committed assigned, namely the object decoded
  from the reply of that run with the clock reading of that run under
  \<^verbatim>\<open>last_updated\<close>, whatever the runs after it met. In both cases the cache is a dict
  that has \<^verbatim>\<open>last_updated\<close>, and \<^verbatim>\<open>GET /api/ai-analysis\<close> answers 200 with exactly
  this dict.
\<close>

theorem cache_always_holds_an_object:
  "(case last_commit json_loads cs (process_start e m) of
      None \<Rightarrow> ai_analysis_cache (run_cycles json_loads cs (process_start e m)) = placeholder
    | Some c \<Rightarrow>
        summarize json_loads c
          = Inr (ai_analysis_cache (run_cycles json_loads cs (process_start e m)))
        \<and> (\<exists>reply d. generate_result c = Inr (Inr reply)
              \<and> json_loads (clean_response reply) = Inr (PDict d)
              \<and> ai_analysis_cache (run_cycles json_loads cs (process_start e m))
                  = PDict (AList.update ''last_updated'' (PStr (now_iso c)) d)))
   \<and> (\<exists>d v. ai_analysis_cache (run_cycles json_loads cs (process_start e m)) = PDict d
          \<and> map_of d ''last_updated'' = Some v)
   \<and> get_ai_analysis (run_cycles json_loads cs (process_start e m))
       = \<lparr>status_code = 200,
          payload = Json (ai_analysis_cache (run_cycles json_loads cs (process_start e m)))\<rparr>"
proof -
  let ?s = "run_cycles json_loads cs (process_start e m)"
  have by_commit: "(case last_commit json_loads cs (process_start e m) of
      None \<Rightarrow> ai_analysis_cache ?s = placeholder
    | Some c \<Rightarrow>
        summarize json_loads c = Inr (ai_analysis_cache ?s)
        \<and> (\<exists>reply d. generate_result c = Inr (Inr reply)
              \<and> json_loads (clean_response reply) = Inr (PDict d)
              \<and> ai_analysis_cache ?s
                  = PDict (AList.update ''last_updated'' (PStr (now_iso c)) d)))"
  proof (cases "last_commit json_loads cs (process_start e m)")
    case None
    with cache_by_last_commit[of json_loads cs "process_start e m"]
    show ?thesis by (simp add: process_start_def)
  next
    case (Some c)
    with cache_by_last_commit[of json_loads cs "process_start e m"]
    have sm: "summarize json_loads c = Inr (ai_analysis_cache ?s)" by simp
    from summarize_Inr[OF sm] sm Some show ?thesis by simp
  qed
  have "ai_analysis_cache (process_start e m) = placeholder"
    by (simp add: process_start_def)
  then have shape: "ai_analysis_cache ?s = placeholder
      \<or> (\<exists>d t. ai_analysis_cache ?s = PDict (AList.update ''last_updated'' (PStr t) d))"
    by (intro cache_shape_run) simp
  then have "\<exists>d v. ai_analysis_cache ?s = PDict d \<and> map_of d ''last_updated'' = Some v"
  proof
    assume "ai_analysis_cache ?s = placeholder"
    then show ?thesis by (simp add: placeholder_def)
  next
    assume "\<exists>d t. ai_analysis_cache ?s = PDict (AList.update ''last_updated'' (PStr t) d)"
    then obtain d t where "ai_analysis_cache ?s = PDict (AList.update ''last_updated'' (PStr t) d)"
      by blast
    moreover have "map_of (AList.update ''last_updated'' (PStr t) d) ''last_updated'' = Some (PStr t)"
      by (simp add: update_conv')
    ultimately show ?thesis by blast
  qed
  with by_commit show ?thesis by (simp add: get_ai_analysis_def)
qed

text \<open>
  Claim C10. As long as no run of the task has committed, \<^verbatim>\<open>GET /api/ai-analysis\<close>
  returns the placeholder, and the placeholder's \<^verbatim>\<open>last_updated\<close> is \<^verbatim>\<open>None\<close>.
\<close>

theorem placeholder_until_first_commit:
  assumes "CacheUpdated \<notin> set (stdout (run_cycles json_loads cs (process_start e m)))"
  shows "get_ai_analysis (run_cycles json_loads cs (process_start e m))
           = \<lparr>status_code = 200, payload = Json placeholder\<rparr>
         \<and> py_getitem placeholder ''last_updated'' = Inr PNone"
proof -
  from assms have "ai_analysis_cache (run_cycles json_loads cs (process_start e m))
      = ai_analysis_cache (process_start e m)"
    by (rule no_commit_run_keeps_cache)
  then show ?thesis by (simp add: get_ai_analysis_def process_start_def placeholder_def)
qed

section \<open>The dashboard series and the cleaning of the reply\<close>

lemma bindE_Inr_iff: "bindE m f = Inr y \<longleftrightarrow> (\<exists>x. m = Inr x \<and> f x = Inr y)"
  by (cases m) (simp_all add: bindE_def)

lemma mapE_list_all2:
  "mapE f xs = Inr ys \<Longrightarrow> list_all2 (\<lambda>x y. f x = Inr y) xs ys"
proof (induction xs arbitrary: ys)
  case Nil
  then show ?case by simp
next
  case (Cons x xs)
  from Cons.prems obtain y ys' where
    "f x = Inr y" "mapE f xs = Inr ys'" "ys = y # ys'"
    by (auto simp: bindE_Inr_iff)
  with Cons.IH show ?case by simp
qed

lemma format_bucket_Inr:
  "format_bucket b = Inr entry \<Longrightarrow>
     \<exists>k n. py_getitem b ''key'' = Inr k \<and> py_getitem b ''doc_count'' = Inr n
          \<and> entry = PDict [(''name'', k), (''value'', n)]"
  by (auto simp: format_bucket_def bindE_Inr_iff)

lemma format_buckets_of_dict:
  assumes "map_of agg ''buckets'' = Some (PList buckets)"
    and "format_buckets (PDict agg) = Inr chart"
  shows "\<exists>series. chart = PList series \<and> mapE format_bucket buckets = Inr series"
proof -
  from assms(1) have "(''buckets'', PList buckets) \<in> set agg" by (rule map_of_SomeD)
  then have present: "''buckets'' \<in> fst ` set agg" and nonempty: "agg \<noteq> []"
    by force+
  with assms show ?thesis
    by (auto simp: format_buckets_def bindE_Inr_iff)
qed

lemma dashboard_chart:
  assumes "dashboard_data response = Inr data"
  shows "\<exists>aggregations over_time chart.
           py_get response ''aggregations'' (PDict []) = Inr aggregations
         \<and> py_get aggregations ''attacks_over_time'' PNone = Inr over_time
         \<and> format_buckets over_time = Inr chart
         \<and> py_getitem data ''chart_attacks_over_time'' = Inr chart"
  using assms unfolding dashboard_data_def bindE_Inr_iff
  by (elim exE conjE) auto

text \<open>
  Claim C8, as the code has it. When the dashboard handler answers 200 and the response
  of the store carries a list of buckets for \<^verbatim>\<open>attacks_over_time\<close>, the series under
  \<^verbatim>\<open>chart_attacks_over_time\<close> has one entry for each of these buckets, in the same
  order, with the key of the bucket as \<^verbatim>\<open>name\<close> and its count (zero or not) as
  \<^verbatim>\<open>value\<close>. The handler neither adds nor drops an entry: the number of entries is the
  number of buckets that the store returned.
\<close>

theorem chart_follows_store_buckets:
  assumes "status_code (fst (get_dashboard_data (Inr response) s)) = 200"
    and "py_get response ''aggregations'' (PDict []) = Inr aggregations"
    and "py_get aggregations ''attacks_over_time'' PNone = Inr (PDict agg)"
    and "map_of agg ''buckets'' = Some (PList buckets)"
  shows "\<exists>series.
           chart_attacks_over_time (fst (get_dashboard_data (Inr response) s))
             = Inr (PList series)
           \<and> length series = length buckets
           \<and> list_all2 (\<lambda>b entry. \<exists>k n. py_getitem b ''key'' = Inr k
                  \<and> py_getitem b ''doc_count'' = Inr n
                  \<and> entry = PDict [(''name'', k), (''value'', n)]) buckets series"
proof -
  from assms(1) obtain data where
    data: "dashboard_data response = Inr data"
    and r: "fst (get_dashboard_data (Inr response) s) = \<lparr>status_code = 200, payload = Json data\<rparr>"
    by (auto simp: get_dashboard_data_def bindE_def split: if_splits sum.splits)
  from dashboard_chart[OF data] assms(2,3) obtain chart where
    chart: "format_buckets (PDict agg) = Inr chart"
      "py_getitem data ''chart_attacks_over_time'' = Inr chart"
    by auto
  from format_buckets_of_dict[OF assms(4) chart(1)] obtain series where
    series: "chart = PList series" "mapE format_bucket buckets = Inr series"
    by blast
  from series(2) have rel: "list_all2 (\<lambda>b entry. format_bucket b = Inr entry) buckets series"
    by (rule mapE_list_all2)
  then have "list_all2 (\<lambda>b entry. \<exists>k n. py_getitem b ''key'' = Inr k
                  \<and> py_getitem b ''doc_count'' = Inr n
                  \<and> entry = PDict [(''name'', k), (''value'', n)]) buckets series"
    by (rule list_all2_mono) (rule format_bucket_Inr)
  moreover from rel have "length series = length buckets"
    by (simp add: list_all2_lengthD)
  moreover have "chart_attacks_over_time (fst (get_dashboard_data (Inr response) s))
      = Inr (PList series)"
    using r chart(2) series(1) by (simp add: chart_attacks_over_time_def)
  ultimately show ?thesis by blast
qed

lemma clean_response_fenced:
  assumes "list_all py_isspace pre" and "list_all py_isspace post"
    and "fence = ''```json'' \<or> (fence = ''```'' \<and> \<not> str_contains ''```json'' (''```'' @ t))"
    and "\<not> str_contains ''```'' t"
  shows "clean_response (pre @ fence @ t @ ''```'' @ post) = t"
proof -
  let ?x = "fence @ t @ ''```''"
  have "?x \<noteq> []" "hd ?x = CHR ''`''" "last ?x = CHR ''`''"
    using assms(3) by auto
  moreover have "\<not> py_isspace (CHR ''`'')" by (simp add: py_isspace_def)
  ultimately have "py_strip (pre @ ?x @ post) = ?x"
    using assms(1,2) by (intro py_strip_padded) simp_all
  then have stripped: "py_strip (pre @ fence @ t @ ''```'' @ post) = fence @ t @ ''```''"
    by simp
  have tail: "str_contains ''```json'' (u @ ''```'') = str_contains ''```json'' u" for u
    by (rule str_contains_append) simp_all
  have "py_replace ''```json'' '''' (fence @ t @ ''```'') = ''```'' @ t @ ''```''
      \<or> py_replace ''```json'' '''' (fence @ t @ ''```'') = t @ ''```''"
    using assms(3)
  proof
    assume f: "fence = ''```json''"
    have "\<not> str_contains (''```'' @ ''json'') t"
      using assms(4) str_contains_prefix by blast
    then have "\<not> str_contains ''```json'' (t @ ''```'')"
      using tail[of t] by simp
    then have "py_replace ''```json'' '''' (t @ ''```'') = t @ ''```''"
      by (intro py_replace_absent) simp_all
    moreover have "py_replace ''```json'' '''' (''```json'' @ (t @ ''```''))
        = '''' @ py_replace ''```json'' '''' (t @ ''```'')"
      by (rule py_replace_match) simp
    ultimately show ?thesis using f by simp
  next
    assume f: "fence = ''```'' \<and> \<not> str_contains ''```json'' (''```'' @ t)"
    then have "\<not> str_contains ''```json'' ((''```'' @ t) @ ''```'')"
      using tail[of "''```'' @ t"] by simp
    then have "py_replace ''```json'' '''' ((''```'' @ t) @ ''```'') = (''```'' @ t) @ ''```''"
      by (intro py_replace_absent) simp_all
    with f show ?thesis by simp
  qed
  moreover have "py_replace ''```'' '''' (''```'' @ (t @ ''```''))
      = '''' @ py_replace ''```'' '''' (t @ ''```'')"
    by (rule py_replace_match) simp
  moreover have "py_replace ''```'' '''' (t @ ''```'') = t"
    using assms(4) by (rule remove_closing_fence)
  ultimately have "py_replace ''```'' '''' (py_replace ''```json'' '''' (fence @ t @ ''```'')) = t"
    by auto
  with stripped show ?thesis by (simp add: clean_response_def)
qed

text \<open>
  Claim C9, as the code has it. Let the reply be a text \<open>t\<close> between an opening fence,
  \<^verbatim>\<open>```json\<close> or a bare \<^verbatim>\<open>```\<close>, and a closing fence \<^verbatim>\<open>```\<close>, with whitespace
  around. If \<open>t\<close> contains no three backquotes in a row (and, after a bare opening fence,
  does not continue it to \<^verbatim>\<open>```json\<close>), then cleaning the reply gives back exactly \<open>t\<close>;
  so when \<open>t\<close> decodes to an object with the three fields, the cleaned reply decodes to
  the same object.
\<close>

theorem fence_stripping_round_trip:
  assumes "list_all py_isspace pre" and "list_all py_isspace post"
    and "fence = ''```json'' \<or> (fence = ''```'' \<and> \<not> str_contains ''```json'' (''```'' @ t))"
    and "\<not> str_contains ''```'' t"
    and "json_loads t = Inr obj" and "has_required_fields obj"
  shows "clean_response (pre @ fence @ t @ ''```'' @ post) = t
         \<and> json_loads (clean_response (pre @ fence @ t @ ''```'' @ post)) = Inr obj"
  using clean_response_fenced[OF assms(1-4)] assms(5) by simp

section \<open>The properties at concrete inputs\<close>

lemma busy_query: "query (busy_cycle reply now) = Inr (busy_aggregations, PInt 200)"
  by (simp add: query_def busy_cycle_def busy_response_def bindE_def)

lemma busy_compose: "compose_briefing (PInt 200) busy_aggregations = Inr busy_briefing"
  by code_simp

lemma loads_full: "example_loads (clean_response full_reply) = Inr (PDict full_object)"
  by code_simp

lemma loads_partial: "example_loads (clean_response partial_reply) = Inr (PDict partial_object)"
  by code_simp

lemma loads_empty: "example_loads (clean_response ''{}'') = Inr (PDict [])"
  by code_simp

lemma loads_list: "example_loads (clean_response ''[]'') = Inr (PList [])"
  by code_simp

lemma loads_refusal: "example_loads (clean_response refusal_reply) = Inl JSONDecodeError"
  by code_simp

lemma busy_fields:
  "generate_result (busy_cycle reply now) = Inr (Inr reply)"
  "now_iso (busy_cycle reply now) = now"
  by (simp_all add: busy_cycle_def)

lemma busy_commit:
  assumes "es s" and "model s" and "jl (clean_response reply) = Inr (PDict d)"
  shows "fetch_and_analyze_data jl (busy_cycle reply now) s =
           s\<lparr>ai_analysis_cache := PDict (AList.update ''last_updated'' (PStr now) d),
             stdout := stdout s @ [RunningAnalysis, SendingData, CacheUpdated]\<rparr>"
  using assms
  by (simp add: fetch_and_analyze_data_def print_def busy_query busy_compose busy_fields
      summarize_def bindE_def)

lemma busy_undecodable:
  assumes "es s" and "model s" and "jl (clean_response reply) = Inl e"
  shows "fetch_and_analyze_data jl (busy_cycle reply now) s =
           s\<lparr>stdout := stdout s @ [RunningAnalysis, SendingData, TaskError e]\<rparr>"
  using assms
  by (simp add: fetch_and_analyze_data_def print_def busy_query busy_compose busy_fields
      summarize_def bindE_def)

lemma failing_run:
  assumes "es s" and "model s"
  shows "fetch_and_analyze_data jl failing_cycle s =
           s\<lparr>stdout := stdout s
              @ [RunningAnalysis, TaskError (OtherException ''ConnectionTimeout'')]\<rparr>"
  using assms
  by (simp add: fetch_and_analyze_data_def print_def query_def failing_cycle_def bindE_def)

lemma quiet_query: "query quiet_cycle = Inr (quiet_aggregations, PInt 0)"
  by (simp add: query_def quiet_cycle_def quiet_response_def bindE_def)

lemma quiet_run:
  assumes "es s" and "model s"
  shows "fetch_and_analyze_data jl quiet_cycle s =
           s\<lparr>stdout := stdout s @ [RunningAnalysis, NoNewEvents]\<rparr>"
  using assms by (simp add: fetch_and_analyze_data_def print_def quiet_query)

lemmas example_runs =
  run_cycles_Nil run_cycles_Cons busy_commit busy_undecodable failing_run quiet_run
  loads_full loads_partial loads_empty loads_refusal process_start_def outcome_def

text \<open>
  Claim C1, witness: the busy store and a reply with all three fields.
\<close>

theorem decoded_object_overwrites_cache_witness:
  "es (process_start True True) \<and> model (process_start True True)
   \<and> query (busy_cycle full_reply ''2025-11-02T09:00:10.251904'')
       = Inr (busy_aggregations, PInt 200)
   \<and> \<not> py_eq_zero (PInt 200)
   \<and> compose_briefing (PInt 200) busy_aggregations = Inr busy_briefing
   \<and> generate_result (busy_cycle full_reply ''2025-11-02T09:00:10.251904'')
       = Inr (Inr full_reply)
   \<and> example_loads (clean_response full_reply) = Inr (PDict full_object)
   \<and> fetch_and_analyze_data example_loads
         (busy_cycle full_reply ''2025-11-02T09:00:10.251904'') (process_start True True)
       = \<lparr>es = True, model = True,
          ai_analysis_cache = PDict (full_object
             @ [(''last_updated'', PStr ''2025-11-02T09:00:10.251904'')]),
          stdout = [RunningAnalysis, SendingData, CacheUpdated]\<rparr>"
proof -
  let ?c = "busy_cycle full_reply ''2025-11-02T09:00:10.251904''"
  let ?s = "process_start True True"
  have up: "es ?s" "model ?s" by (simp_all add: process_start_def)
  have q: "query ?c = Inr (busy_aggregations, PInt 200)" by (rule busy_query)
  have nz: "\<not> py_eq_zero (PInt 200)" by simp
  have b: "compose_briefing (PInt 200) busy_aggregations = Inr busy_briefing"
    by (rule busy_compose)
  have g: "generate_result ?c = Inr (Inr full_reply)" by (simp add: busy_cycle_def)
  have d: "example_loads (clean_response full_reply) = Inr (PDict full_object)"
    by (rule loads_full)
  have "AList.update ''last_updated'' (PStr ''2025-11-02T09:00:10.251904'') full_object
      = full_object @ [(''last_updated'', PStr ''2025-11-02T09:00:10.251904'')]"
    by (simp add: full_object_def)
  with decoded_object_overwrites_cache[where json_loads = example_loads and reply = full_reply
      and d = full_object, OF up q nz b g d] up q nz b g d
  show ?thesis by (simp add: process_start_def busy_cycle_def)
qed

text \<open>
  Claim C1, counterexample to the claim as stated (a result that lacks one of the three
  fields makes the run skip and leaves the cache as it was): the reply \<^verbatim>\<open>{}\<close> decodes
  to the empty object, which has none of the three fields, and the run commits it; the
  cache then holds \<^verbatim>\<open>last_updated\<close> only.
\<close>

theorem missing_fields_still_committed:
  "example_loads (clean_response ''{}'') = Inr (PDict [])
   \<and> \<not> has_required_fields (PDict [])
   \<and> fetch_and_analyze_data example_loads
         (busy_cycle ''{}'' ''2025-11-02T09:00:10.251904'') (process_start True True)
       = \<lparr>es = True, model = True,
          ai_analysis_cache = PDict [(''last_updated'', PStr ''2025-11-02T09:00:10.251904'')],
          stdout = [RunningAnalysis, SendingData, CacheUpdated]\<rparr>
   \<and> ai_analysis_cache (fetch_and_analyze_data example_loads
         (busy_cycle ''{}'' ''2025-11-02T09:00:10.251904'') (process_start True True))
       \<noteq> ai_analysis_cache (process_start True True)"
  by (simp add: example_runs has_required_fields_def placeholder_def)

text \<open>
  Claim C2, witness: a run that commits a full briefing, then a run in which the store
  fails; the cache still holds the briefing of the first run.
\<close>

theorem cache_always_holds_an_object_witness:
  "last_commit example_loads
       [busy_cycle full_reply ''2025-11-02T09:00:10.251904'', failing_cycle]
       (process_start True True)
     = Some (busy_cycle full_reply ''2025-11-02T09:00:10.251904'')
   \<and> summarize example_loads (busy_cycle full_reply ''2025-11-02T09:00:10.251904'')
       = Inr (ai_analysis_cache (run_cycles example_loads
            [busy_cycle full_reply ''2025-11-02T09:00:10.251904'', failing_cycle]
            (process_start True True)))
   \<and> ai_analysis_cache (run_cycles example_loads
         [busy_cycle full_reply ''2025-11-02T09:00:10.251904'', failing_cycle]
         (process_start True True))
       = PDict (full_object @ [(''last_updated'', PStr ''2025-11-02T09:00:10.251904'')])
   \<and> get_ai_analysis (run_cycles example_loads
         [busy_cycle full_reply ''2025-11-02T09:00:10.251904'', failing_cycle]
         (process_start True True))
       = \<lparr>status_code = 200,
          payload = Json (PDict (full_object
             @ [(''last_updated'', PStr ''2025-11-02T09:00:10.251904'')]))\<rparr>"
proof -
  let ?c = "busy_cycle full_reply ''2025-11-02T09:00:10.251904''"
  let ?s = "run_cycles example_loads [?c, failing_cycle] (process_start True True)"
  have lc: "last_commit example_loads [?c, failing_cycle] (process_start True True) = Some ?c"
    by (simp add: example_runs)
  have sm: "summarize example_loads ?c
      = Inr (PDict (full_object @ [(''last_updated'', PStr ''2025-11-02T09:00:10.251904'')]))"
    by (simp add: summarize_def busy_fields loads_full bindE_def full_object_def)
  from cache_always_holds_an_object[of example_loads "[?c, failing_cycle]" True True] lc
  have "summarize example_loads ?c = Inr (ai_analysis_cache ?s)"
    and "get_ai_analysis ?s = \<lparr>status_code = 200, payload = Json (ai_analysis_cache ?s)\<rparr>"
    by simp_all
  with sm lc show ?thesis by simp
qed

text \<open>
  Claim C2, counterexample to the claim as stated (the cache always holds a valid
  Briefing): a first run commits a full briefing, which is valid; ten minutes later the
  service replies \<^verbatim>\<open>{}\<close>, and the cache holds an object with neither summary nor
  threat type nor recommendations.
\<close>

theorem cache_can_lose_briefing_fields:
  "valid_briefing (ai_analysis_cache (run_cycles example_loads
       [busy_cycle full_reply ''2025-11-02T09:00:10.251904'']
       (process_start True True)))
   \<and> ai_analysis_cache (run_cycles example_loads
       [busy_cycle full_reply ''2025-11-02T09:00:10.251904'',
        busy_cycle ''{}'' ''2025-11-02T09:10:10.250113'']
       (process_start True True))
      = PDict [(''last_updated'', PStr ''2025-11-02T09:10:10.250113'')]
   \<and> \<not> valid_briefing (PDict [(''last_updated'', PStr ''2025-11-02T09:10:10.250113'')])"
  by (simp add: example_runs full_object_def valid_briefing_def is_str_def)

text \<open>
  Claim C3, witness: the store times out on the first run of the process.
\<close>

theorem query_failure_keeps_cache_witness:
  "es (process_start True True) \<and> model (process_start True True)
   \<and> search_result failing_cycle = Inl (OtherException ''ConnectionTimeout'')
   \<and> fetch_and_analyze_data example_loads failing_cycle (process_start True True)
       = \<lparr>es = True, model = True, ai_analysis_cache = placeholder,
          stdout = [RunningAnalysis, TaskError (OtherException ''ConnectionTimeout'')]\<rparr>
   \<and> ai_analysis_cache (fetch_and_analyze_data example_loads failing_cycle
         (process_start True True)) = placeholder"
proof -
  let ?s = "process_start True True"
  have up: "es ?s" "model ?s" by (simp_all add: process_start_def)
  have f: "search_result failing_cycle = Inl (OtherException ''ConnectionTimeout'')"
    by (simp add: failing_cycle_def)
  from query_failure_keeps_cache[where json_loads = example_loads, OF up f] up f
  show ?thesis by (simp add: process_start_def)
qed

text \<open>
  Claim C4, witness: the store reports zero events on the first run of the process.
\<close>

theorem empty_window_skips_witness:
  "es (process_start True True) \<and> model (process_start True True)
   \<and> query quiet_cycle = Inr (quiet_aggregations, PInt 0)
   \<and> py_eq_zero (PInt 0)
   \<and> fetch_and_analyze_data example_loads quiet_cycle (process_start True True)
       = \<lparr>es = True, model = True, ai_analysis_cache = placeholder,
          stdout = [RunningAnalysis, NoNewEvents]\<rparr>
   \<and> ai_analysis_cache (fetch_and_analyze_data example_loads quiet_cycle
         (process_start True True)) = placeholder"
proof -
  let ?s = "process_start True True"
  have up: "es ?s" "model ?s" by (simp_all add: process_start_def)
  have q: "query quiet_cycle = Inr (quiet_aggregations, PInt 0)" by (rule quiet_query)
  have z: "py_eq_zero (PInt 0)" by simp
  from empty_window_skips[where json_loads = example_loads, OF up q z] up q z
  show ?thesis by (simp add: process_start_def)
qed

text \<open>
  Claim C5, witness: the service replies with a sentence in place of JSON (the decoder
  raises), and with a JSON array (the item assignment raises).
\<close>

theorem undecodable_reply_keeps_cache_witness:
  "generate_result (busy_cycle refusal_reply ''2025-11-02T09:00:10.251904'')
     = Inr (Inr refusal_reply)
   \<and> (\<forall>d. example_loads (clean_response refusal_reply) \<noteq> Inr (PDict d))
   \<and> outcome example_loads (busy_cycle refusal_reply ''2025-11-02T09:00:10.251904'')
        (process_start True True) \<noteq> CacheUpdated
   \<and> get_ai_analysis (fetch_and_analyze_data example_loads
        (busy_cycle refusal_reply ''2025-11-02T09:00:10.251904'') (process_start True True))
       = \<lparr>status_code = 200, payload = Json placeholder\<rparr>
   \<and> generate_result (busy_cycle ''[]'' ''2025-11-02T09:10:10.250113'') = Inr (Inr ''[]'')
   \<and> (\<forall>d. example_loads (clean_response ''[]'') \<noteq> Inr (PDict d))
   \<and> outcome example_loads (busy_cycle ''[]'' ''2025-11-02T09:10:10.250113'')
        (process_start True True) \<noteq> CacheUpdated
   \<and> get_ai_analysis (fetch_and_analyze_data example_loads
        (busy_cycle ''[]'' ''2025-11-02T09:10:10.250113'') (process_start True True))
       = \<lparr>status_code = 200, payload = Json placeholder\<rparr>"
proof -
  let ?c1 = "busy_cycle refusal_reply ''2025-11-02T09:00:10.251904''"
  let ?c2 = "busy_cycle ''[]'' ''2025-11-02T09:10:10.250113''"
  have g1: "generate_result ?c1 = Inr (Inr refusal_reply)" by (rule busy_fields)
  have n1: "\<forall>d. example_loads (clean_response refusal_reply) \<noteq> Inr (PDict d)"
    by (simp add: loads_refusal)
  have g2: "generate_result ?c2 = Inr (Inr ''[]'')" by (rule busy_fields)
  have n2: "\<forall>d. example_loads (clean_response ''[]'') \<noteq> Inr (PDict d)"
    by (simp add: loads_list)
  from undecodable_reply_keeps_cache[where s = "process_start True True"
      and json_loads = example_loads and reply = refusal_reply, OF g1 n1]
    undecodable_reply_keeps_cache[where s = "process_start True True"
      and json_loads = example_loads and reply = "''[]''", OF g2 n2] g1 n1 g2 n2
  show ?thesis by (simp add: process_start_def get_ai_analysis_def)
qed

text \<open>
  Claim C5, counterexample to the claim as stated (a reply that cannot be read as the
  three-field structure makes the run skip): a reply that is a JSON object with a summary
  and nothing else is not the three-field structure; the run commits it, and
  \<^verbatim>\<open>GET /api/ai-analysis\<close> no longer returns what it returned before.
\<close>

theorem object_without_fields_replaces_cache:
  "example_loads (clean_response partial_reply) = Inr (PDict partial_object)
   \<and> \<not> has_required_fields (PDict partial_object)
   \<and> outcome example_loads (busy_cycle partial_reply ''2025-11-02T09:00:10.251904'')
        (process_start True True) = CacheUpdated
   \<and> get_ai_analysis (process_start True True)
       = \<lparr>status_code = 200, payload = Json placeholder\<rparr>
   \<and> get_ai_analysis (fetch_and_analyze_data example_loads
        (busy_cycle partial_reply ''2025-11-02T09:00:10.251904'') (process_start True True))
       = \<lparr>status_code = 200, payload = Json (PDict
            [(''summary'', PStr ''Automated SSH scanning from two countries.''),
             (''last_updated'', PStr ''2025-11-02T09:00:10.251904'')])\<rparr>"
  by (simp add: example_runs has_required_fields_def partial_object_def get_ai_analysis_def)

text \<open>
  Claim C10, witness: a run in which the store fails and a run with an empty window.
\<close>

theorem placeholder_until_first_commit_witness:
  "CacheUpdated \<notin> set (stdout (run_cycles example_loads [failing_cycle, quiet_cycle]
       (process_start True True)))
   \<and> get_ai_analysis (run_cycles example_loads [failing_cycle, quiet_cycle]
       (process_start True True))
       = \<lparr>status_code = 200, payload = Json placeholder\<rparr>
   \<and> py_getitem placeholder ''last_updated'' = Inr PNone"
proof -
  have n: "CacheUpdated \<notin> set (stdout (run_cycles example_loads [failing_cycle, quiet_cycle]
       (process_start True True)))"
    by (simp add: example_runs)
  from placeholder_until_first_commit[OF n] n show ?thesis by simp
qed

text \<open>
  Claim C6, witness: a second commit ten minutes after the first, and the first commit
  of the process.
\<close>

theorem increasing_clock_gives_later_timestamp_witness:
  "sorted_wrt str_less (map now_iso
       ([busy_cycle full_reply ''2025-11-02T09:00:10.251904'']
        @ [busy_cycle full_reply ''2025-11-02T09:10:10.250113'']))
   \<and> outcome example_loads (busy_cycle full_reply ''2025-11-02T09:10:10.250113'')
       (run_cycles example_loads [busy_cycle full_reply ''2025-11-02T09:00:10.251904'']
          (process_start True True)) = CacheUpdated
   \<and> py_getitem (ai_analysis_cache
         (run_cycles example_loads [busy_cycle full_reply ''2025-11-02T09:00:10.251904'']
            (process_start True True))) ''last_updated''
       = Inr (PStr ''2025-11-02T09:00:10.251904'')
   \<and> py_getitem (ai_analysis_cache
         (fetch_and_analyze_data example_loads
            (busy_cycle full_reply ''2025-11-02T09:10:10.250113'')
            (run_cycles example_loads [busy_cycle full_reply ''2025-11-02T09:00:10.251904'']
               (process_start True True)))) ''last_updated''
       = Inr (PStr ''2025-11-02T09:10:10.250113'')
   \<and> strictly_later (PStr ''2025-11-02T09:10:10.250113'')
         (PStr ''2025-11-02T09:00:10.251904'')
   \<and> sorted_wrt str_less (map now_iso
       ([] @ [busy_cycle full_reply ''2025-11-02T09:00:10.251904'']))
   \<and> outcome example_loads (busy_cycle full_reply ''2025-11-02T09:00:10.251904'')
       (run_cycles example_loads [] (process_start True True)) = CacheUpdated
   \<and> py_getitem (ai_analysis_cache (run_cycles example_loads [] (process_start True True)))
         ''last_updated'' = Inr PNone
   \<and> py_getitem (ai_analysis_cache
         (fetch_and_analyze_data example_loads
            (busy_cycle full_reply ''2025-11-02T09:00:10.251904'')
            (run_cycles example_loads [] (process_start True True)))) ''last_updated''
       = Inr (PStr ''2025-11-02T09:00:10.251904'')
   \<and> strictly_later (PStr ''2025-11-02T09:00:10.251904'') PNone"
proof -
  let ?c1 = "busy_cycle full_reply ''2025-11-02T09:00:10.251904''"
  let ?c2 = "busy_cycle full_reply ''2025-11-02T09:10:10.250113''"
  let ?s0 = "process_start True True"
  have n1: "now_iso ?c1 = ''2025-11-02T09:00:10.251904''"
    and n2: "now_iso ?c2 = ''2025-11-02T09:10:10.250113''"
    by (rule busy_fields)+
  have i1: "sorted_wrt str_less (map now_iso ([] @ [?c1]))" by simp
  have o1: "outcome example_loads ?c1 (run_cycles example_loads [] ?s0) = CacheUpdated"
    by (simp add: example_runs)
  have p1: "py_getitem (ai_analysis_cache (run_cycles example_loads [] ?s0)) ''last_updated''
      = Inr PNone"
    by (simp add: example_runs placeholder_def)
  have i2: "sorted_wrt str_less (map now_iso ([?c1] @ [?c2]))"
    by (simp add: n1 n2)
  have o2: "outcome example_loads ?c2 (run_cycles example_loads [?c1] ?s0) = CacheUpdated"
    by (simp add: example_runs)
  have p2: "py_getitem (ai_analysis_cache (run_cycles example_loads [?c1] ?s0)) ''last_updated''
      = Inr (PStr ''2025-11-02T09:00:10.251904'')"
    by (simp add: example_runs update_conv')
  from increasing_clock_gives_later_timestamp[OF i1 o1] p1 n1
  have first: "py_getitem (ai_analysis_cache (fetch_and_analyze_data example_loads ?c1
        (run_cycles example_loads [] ?s0))) ''last_updated''
      = Inr (PStr ''2025-11-02T09:00:10.251904'')"
    "strictly_later (PStr ''2025-11-02T09:00:10.251904'') PNone"
    by auto
  from increasing_clock_gives_later_timestamp[OF i2 o2] p2 n2
  have second: "py_getitem (ai_analysis_cache (fetch_and_analyze_data example_loads ?c2
        (run_cycles example_loads [?c1] ?s0))) ''last_updated''
      = Inr (PStr ''2025-11-02T09:10:10.250113'')"
    "strictly_later (PStr ''2025-11-02T09:10:10.250113'') (PStr ''2025-11-02T09:00:10.251904'')"
    by auto
  show ?thesis
    by (intro conjI) (rule i1 o1 p1 first i2 o2 p2 second)+
qed

text \<open>
  Claim C6, counterexample to the claim as stated (after every commit
  \<^verbatim>\<open>last_updated\<close> is strictly later than before). \<^verbatim>\<open>datetime.now()\<close> is local
  wall-clock time. A run commits at 01:55:10 local time; at 02:00 the clock goes back
  one hour with the end of daylight saving time; the next run, ten minutes after the
  first, commits at 01:05:10, and \<^verbatim>\<open>last_updated\<close> is earlier than it was.
\<close>

theorem clock_set_back_between_commits:
  "outcome example_loads (busy_cycle full_reply ''2025-11-02T01:55:10.120377'')
       (process_start True True) = CacheUpdated
   \<and> py_getitem (ai_analysis_cache
         (run_cycles example_loads [busy_cycle full_reply ''2025-11-02T01:55:10.120377'']
            (process_start True True))) ''last_updated''
       = Inr (PStr ''2025-11-02T01:55:10.120377'')
   \<and> outcome example_loads (busy_cycle full_reply ''2025-11-02T01:05:10.480211'')
       (run_cycles example_loads [busy_cycle full_reply ''2025-11-02T01:55:10.120377'']
          (process_start True True)) = CacheUpdated
   \<and> py_getitem (ai_analysis_cache
         (run_cycles example_loads
            [busy_cycle full_reply ''2025-11-02T01:55:10.120377'',
             busy_cycle full_reply ''2025-11-02T01:05:10.480211'']
            (process_start True True))) ''last_updated''
       = Inr (PStr ''2025-11-02T01:05:10.480211'')
   \<and> \<not> strictly_later (PStr ''2025-11-02T01:05:10.480211'')
         (PStr ''2025-11-02T01:55:10.120377'')"
  by (simp add: example_runs update_conv' strictly_later_def)

lemma hourly_status:
  "status_code (fst (get_dashboard_data (Inr hourly_response) (process_start True True))) = 200"
  by code_simp

lemma hourly_chart:
  "chart_attacks_over_time
     (fst (get_dashboard_data (Inr hourly_response) (process_start True True)))
   = Inr (PList hourly_series)"
  by code_simp

text \<open>
  Claim C8, witness: the response with 25 hourly buckets.
\<close>

theorem chart_follows_store_buckets_witness:
  "status_code (fst (get_dashboard_data (Inr hourly_response) (process_start True True))) = 200
   \<and> py_get hourly_response ''aggregations'' (PDict []) = Inr hourly_aggregations
   \<and> py_get hourly_aggregations ''attacks_over_time'' PNone
       = Inr (PDict [(''buckets'', PList hourly_buckets)])
   \<and> map_of [(''buckets'', PList hourly_buckets)] ''buckets'' = Some (PList hourly_buckets)
   \<and> (\<exists>series.
         chart_attacks_over_time
           (fst (get_dashboard_data (Inr hourly_response) (process_start True True)))
           = Inr (PList series)
         \<and> length series = length hourly_buckets
         \<and> list_all2 (\<lambda>b entry. \<exists>k n. py_getitem b ''key'' = Inr k
                \<and> py_getitem b ''doc_count'' = Inr n
                \<and> entry = PDict [(''name'', k), (''value'', n)]) hourly_buckets series)"
proof -
  note st = hourly_status
  have a: "py_get hourly_response ''aggregations'' (PDict []) = Inr hourly_aggregations"
    by (simp add: hourly_response_def)
  have o: "py_get hourly_aggregations ''attacks_over_time'' PNone
      = Inr (PDict [(''buckets'', PList hourly_buckets)])"
    by (simp add: hourly_aggregations_def)
  have b: "map_of [(''buckets'', PList hourly_buckets)] ''buckets'' = Some (PList hourly_buckets)"
    by simp
  from chart_follows_store_buckets[OF st a o b] st a o b show ?thesis by blast
qed

text \<open>
  Claim C8, counterexample to the claim as stated (the series has exactly 24 entries for
  every response of the store): for a response with the 25 hourly buckets from 09:00 one
  day to 09:00 the next, both included, the handler answers 200 and the series has 25
  entries.
\<close>

theorem twenty_five_hourly_entries:
  "length hourly_buckets = 25
   \<and> status_code (fst (get_dashboard_data (Inr hourly_response) (process_start True True))) = 200
   \<and> chart_attacks_over_time
        (fst (get_dashboard_data (Inr hourly_response) (process_start True True)))
       = Inr (PList hourly_series)
   \<and> length hourly_series = 25"
  by (simp add: hourly_status hourly_chart hourly_buckets_def hourly_series_def
      hourly_keys_def hourly_counts_def)

lemma full_text_clean: "\<not> str_contains ''```'' (''\<newline>'' @ full_reply @ ''\<newline>'')"
  by code_simp

lemma loads_full_line:
  "example_loads (''\<newline>'' @ full_reply @ ''\<newline>'') = Inr (PDict full_object)"
  by code_simp

lemma loads_quoting_line:
  "example_loads (''\<newline>'' @ quoting_reply @ ''\<newline>'') = Inr (PDict quoting_object)"
  by code_simp

lemma clean_quoting:
  "clean_response (''```json'' @ (''\<newline>'' @ quoting_reply @ ''\<newline>'') @ ''```'')
     = ''\<newline>'' @ unquoted_reply @ ''\<newline>''"
  by code_simp

lemma loads_unquoted_line:
  "example_loads (''\<newline>'' @ unquoted_reply @ ''\<newline>'') = Inr (PDict unquoted_object)"
  by code_simp

lemma clean_upper:
  "clean_response (''```JSON'' @ (''\<newline>'' @ full_reply @ ''\<newline>'') @ ''```'')
     = ''JSON'' @ (''\<newline>'' @ full_reply @ ''\<newline>'')"
  by code_simp

lemma loads_upper:
  "example_loads (''JSON'' @ (''\<newline>'' @ full_reply @ ''\<newline>'')) = Inl JSONDecodeError"
  by code_simp

text \<open>
  Claim C9, witness: a full briefing on its own line between \<^verbatim>\<open>```json\<close> and
  \<^verbatim>\<open>```\<close>.
\<close>

theorem fence_stripping_round_trip_witness:
  "list_all py_isspace '' '' \<and> list_all py_isspace ''\<newline>''
   \<and> \<not> str_contains ''```'' (''\<newline>'' @ full_reply @ ''\<newline>'')
   \<and> example_loads (''\<newline>'' @ full_reply @ ''\<newline>'') = Inr (PDict full_object)
   \<and> has_required_fields (PDict full_object)
   \<and> clean_response ('' '' @ ''```json'' @ (''\<newline>'' @ full_reply @ ''\<newline>'')
         @ ''```'' @ ''\<newline>'')
       = ''\<newline>'' @ full_reply @ ''\<newline>''
   \<and> example_loads (clean_response
         ('' '' @ ''```json'' @ (''\<newline>'' @ full_reply @ ''\<newline>'')
            @ ''```'' @ ''\<newline>''))
       = Inr (PDict full_object)"
proof -
  let ?t = "''\<newline>'' @ full_reply @ ''\<newline>''"
  have w: "list_all py_isspace '' ''" "list_all py_isspace ''\<newline>''"
    by (simp_all add: py_isspace_def)
  have f: "''```json'' = ''```json''
      \<or> (''```json'' = ''```'' \<and> \<not> str_contains ''```json'' (''```'' @ ?t))"
    by simp
  note n = full_text_clean and d = loads_full_line
  have h: "has_required_fields (PDict full_object)"
    by (simp add: has_required_fields_def full_object_def)
  from fence_stripping_round_trip[where json_loads = example_loads, OF w f n d h] w n d h
  show ?thesis by blast
qed

text \<open>
  Claim C9, counterexample to the claim as stated (every valid three-field object wrapped
  in code-fence markers is recovered). First, an object whose recommendation quotes a
  command between three backquotes: cleaning removes these backquotes too, and the
  cleaned reply decodes to a different object. Second, a full briefing behind the opening
  fence \<^verbatim>\<open>```JSON\<close>: cleaning leaves the letters \<^verbatim>\<open>JSON\<close> in front of the object, and
  the decoder raises.
\<close>

theorem fenced_reply_not_recovered:
  "example_loads (''\<newline>'' @ quoting_reply @ ''\<newline>'') = Inr (PDict quoting_object)
   \<and> has_required_fields (PDict quoting_object)
   \<and> example_loads (clean_response
        (''```json'' @ (''\<newline>'' @ quoting_reply @ ''\<newline>'') @ ''```''))
       = Inr (PDict unquoted_object)
   \<and> PDict unquoted_object \<noteq> PDict quoting_object
   \<and> example_loads (''\<newline>'' @ full_reply @ ''\<newline>'') = Inr (PDict full_object)
   \<and> has_required_fields (PDict full_object)
   \<and> clean_response (''```JSON'' @ (''\<newline>'' @ full_reply @ ''\<newline>'') @ ''```'')
       = ''JSON'' @ (''\<newline>'' @ full_reply @ ''\<newline>'')
   \<and> example_loads (clean_response
        (''```JSON'' @ (''\<newline>'' @ full_reply @ ''\<newline>'') @ ''```''))
       = Inl JSONDecodeError"
proof -
  have h1: "has_required_fields (PDict quoting_object)"
    by (simp add: has_required_fields_def quoting_object_def)
  have h2: "has_required_fields (PDict full_object)"
    by (simp add: has_required_fields_def full_object_def)
  have a: "example_loads (clean_response
        (''```json'' @ (''\<newline>'' @ quoting_reply @ ''\<newline>'') @ ''```''))
       = Inr (PDict unquoted_object)"
    unfolding clean_quoting by (rule loads_unquoted_line)
  have ne: "PDict unquoted_object \<noteq> PDict quoting_object"
    by (simp add: unquoted_object_def quoting_object_def)
  have b: "example_loads (clean_response
        (''```JSON'' @ (''\<newline>'' @ full_reply @ ''\<newline>'') @ ''```''))
       = Inl JSONDecodeError"
    unfolding clean_upper by (rule loads_upper)
  show ?thesis
    by (intro conjI) (rule loads_quoting_line h1 a ne loads_full_line h2 clean_upper b)+
qed

end
